theory Spec2Isabelle
  imports Main "HOL-Library.Char_ord"
begin

section \<open>The bundle service helper of the DynamoDB persistence layer\<close>

text \<open>
  This theory embeds \<^verbatim>\<open>src/dataServices/dynamoDbBundleServiceHelper.ts\<close>: the staging
  generator \<^verbatim>\<open>generateStagingRequests\<close>, the rollback generator
  \<^verbatim>\<open>generateRollbackRequests\<close> and the read reconciler
  \<^verbatim>\<open>populateBundleEntryResponseWithReadResult\<close>.

  Conventions of the embedding.
  \<^item> A thrown exception is the left injection of a sum: \<open>Inl TypeError\<close> is what reading a
    property of \<^verbatim>\<open>undefined\<close> raises, \<open>Inl (Error msg)\<close> is \<^verbatim>\<open>throw new Error(msg)\<close>.
  \<^item> A version number is an \<open>int\<close>: JavaScript numbers are taken in the range where integer
    arithmetic is exact. The one non-integer that the code can produce, the \<^verbatim>\<open>NaN\<close> of
    \<^verbatim>\<open>parseInt\<close>, is a value of its own in the type \<open>number\<close>.
  \<^item> The version mapping \<^verbatim>\<open>Record<string, number>\<close> is a plain object. Its own entries
    are a map \<open>string \<rightharpoonup> int\<close>; reading a key that has no entry finds the member of that
    name that every plain object inherits from \<^verbatim>\<open>Object.prototype\<close>, and \<^verbatim>\<open>undefined\<close> only
    when there is none (\<open>readProperty\<close> below).
  \<^item> A resource payload (\<^verbatim>\<open>any\<close> in the source) is a record of the fields the module
    reads (\<^verbatim>\<open>id\<close>, \<^verbatim>\<open>resourceType\<close>, \<^verbatim>\<open>meta\<close>) and an opaque rest. Entries of an array are
    distinct objects, so that writing a field of one entry leaves the others alone.
  \<^item> The two effects of the module, \<^verbatim>\<open>uuidv4()\<close> and \<^verbatim>\<open>new Date()\<close>, read an explicit
    environment: the \<open>n\<close>-th call of each returns the \<open>n\<close>-th value of a source, and the
    state \<open>world\<close> counts the calls.
  \<^item> A string is the list of its code units, each below 256; code units from 256 on,
    among them the white space beyond U+00A0, are outside the model.
\<close>

subsection \<open>Errors, numbers and decimal strings\<close>

datatype error = TypeError | Error string

datatype number = Num int | NaN

definition isDigit :: "char \<Rightarrow> bool" where
  "isDigit c = (CHR ''0'' \<le> c \<and> c \<le> CHR ''9'')"

definition digitChar :: "nat \<Rightarrow> char" where
  "digitChar d = char_of (48 + d)"

definition digitValue :: "char \<Rightarrow> nat" where
  "digitValue c = of_char c - 48"

fun decimal :: "nat \<Rightarrow> string" where
  "decimal n = (if n < 10 then [digitChar n] else decimal (n div 10) @ [digitChar (n mod 10)])"

declare decimal.simps [simp del]

text \<open>\<^verbatim>\<open>Number.prototype.toString()\<close> on an integer: a minus sign and the decimal digits.\<close>

definition toString :: "int \<Rightarrow> string" where
  "toString v = (if v < 0 then CHR ''-'' # decimal (nat (- v)) else decimal (nat v))"

text \<open>
  The white space that \<^verbatim>\<open>parseInt\<close> skips, among the code units below 256: space, tab,
  line feed, vertical tab, form feed, carriage return and the no-break space U+00A0.
\<close>

definition isWhiteSpace :: "char \<Rightarrow> bool" where
  "isWhiteSpace c =
     (c \<in> set [CHR 0x20, CHR 0x09, CHR 0x0A, CHR 0x0B, CHR 0x0C, CHR 0x0D, CHR 0xA0])"

definition digitsValue :: "string \<Rightarrow> nat" where
  "digitsValue ds = foldl (\<lambda>acc c. 10 * acc + digitValue c) 0 ds"

text \<open>
  \<^verbatim>\<open>parseInt(s, 10)\<close>: leading white space is skipped, one sign is read, then the longest
  run of decimal digits; with no digit the result is \<^verbatim>\<open>NaN\<close>.
\<close>

definition parseInt :: "string \<Rightarrow> number" where
  "parseInt s =
     (let t = dropWhile isWhiteSpace s;
          neg = (t \<noteq> [] \<and> hd t = CHR ''-'');
          u = (if t \<noteq> [] \<and> (hd t = CHR ''-'' \<or> hd t = CHR ''+'') then tl t else t);
          ds = takeWhile isDigit u
      in if ds = [] then NaN
         else if neg then Num (- int (digitsValue ds)) else Num (int (digitsValue ds)))"

subsection \<open>Reading the version mapping\<close>

text \<open>
  The members that a plain object inherits from \<^verbatim>\<open>Object.prototype\<close>, each with the string
  that its \<^verbatim>\<open>toString()\<close> returns in Node.js: eleven built-in functions, and the accessor
  \<^verbatim>\<open>__proto__\<close>, which reads as the prototype object itself.
\<close>

definition objectPrototype :: "string \<rightharpoonup> string" where
  "objectPrototype = map_of
     [(''constructor'', ''function Object() { [native code] }''),
      (''__defineGetter__'', ''function __defineGetter__() { [native code] }''),
      (''__defineSetter__'', ''function __defineSetter__() { [native code] }''),
      (''hasOwnProperty'', ''function hasOwnProperty() { [native code] }''),
      (''__lookupGetter__'', ''function __lookupGetter__() { [native code] }''),
      (''__lookupSetter__'', ''function __lookupSetter__() { [native code] }''),
      (''isPrototypeOf'', ''function isPrototypeOf() { [native code] }''),
      (''propertyIsEnumerable'', ''function propertyIsEnumerable() { [native code] }''),
      (''toString'', ''function toString() { [native code] }''),
      (''valueOf'', ''function valueOf() { [native code] }''),
      (''__proto__'', ''[object Object]''),
      (''toLocaleString'', ''function toLocaleString() { [native code] }'')]"

text \<open>
  What \<^verbatim>\<open>idToVersionId[id]\<close> evaluates to: the number of the object's own entry, an
  inherited member (kept as the string that its \<^verbatim>\<open>toString()\<close> returns), or
  \<^verbatim>\<open>undefined\<close>.
\<close>

datatype property = Undefined | Own int | Inherited string

definition readProperty :: "(string \<rightharpoonup> int) \<Rightarrow> string \<Rightarrow> property" where
  "readProperty obj key =
     (case obj key of
        Some v \<Rightarrow> Own v
      | None \<Rightarrow> (case objectPrototype key of Some s \<Rightarrow> Inherited s | None \<Rightarrow> Undefined))"

text \<open>\<^verbatim>\<open>vid.toString()\<close> on such a value; it throws on \<^verbatim>\<open>undefined\<close>.\<close>

fun propertyToString :: "property \<Rightarrow> error + string" where
  "propertyToString Undefined = Inl TypeError"
| "propertyToString (Own v) = Inr (toString v)"
| "propertyToString (Inherited s) = Inr s"

text \<open>
  What the variable \<^verbatim>\<open>vid\<close> of the create and update branches holds: a number, or a string
  when \<^verbatim>\<open>+\<close> has concatenated.
\<close>

datatype version = Number int | Text string

text \<open>
  \<^verbatim>\<open>(x || 0) + 1\<close> for the value \<open>x\<close> read from the version mapping. \<^verbatim>\<open>undefined\<close> and the
  number 0 are falsy and give way to 0. An inherited member is truthy, and adding 1 to it
  converts both operands to strings and concatenates them.
\<close>

fun orZeroPlusOne :: "property \<Rightarrow> version" where
  "orZeroPlusOne Undefined = Number (0 + 1)"
| "orZeroPlusOne (Own v) = Number ((if v \<noteq> 0 then v else 0) + 1)"
| "orZeroPlusOne (Inherited s) = Text (s @ toString 1)"

text \<open>\<^verbatim>\<open>vid.toString()\<close> on a version.\<close>

fun versionToString :: "version \<Rightarrow> string" where
  "versionToString (Number v) = toString v"
| "versionToString (Text s) = s"

subsection \<open>Data model\<close>

text \<open>
  The operation kinds. The switch statements of the module name four kinds; every other
  member of \<^verbatim>\<open>TypeOperation | SystemOperation\<close> takes their default branch and is
  \<open>OtherOperation\<close> here.
\<close>

datatype operation = Create | Update | Delete | Read | OtherOperation

text \<open>
  Modelled from the spec: the status vocabulary \<^verbatim>\<open>DOCUMENT_STATUS\<close> (declared in
  \<^verbatim>\<open>documentStatus.ts\<close>), the four values the spec lists.
\<close>

datatype document_status = PENDING | LOCKED | PENDING_DELETE | DELETED

record meta =
  versionId :: string
  lastUpdated :: string

record resource =
  res_id :: string
  res_resourceType :: string
  res_meta :: "meta option"
  res_content :: "(string \<times> string) list"

text \<open>The \<^verbatim>\<open>resource\<close> field of a response: the empty object \<^verbatim>\<open>{}\<close> or a resource.\<close>

datatype payload = EmptyObject | Resource resource

text \<open>\<^verbatim>\<open>BatchReadWriteRequest\<close>, the fields the module reads.\<close>

record request =
  req_operation :: operation
  req_resourceType :: string
  req_id :: string
  req_resource :: resource

text \<open>\<^verbatim>\<open>BatchReadWriteResponse\<close>.\<close>

record response =
  rsp_id :: string
  rsp_vid :: string
  rsp_resourceType :: string
  rsp_operation :: operation
  rsp_resource :: payload
  rsp_lastModified :: string

text \<open>
  \<^verbatim>\<open>ItemRequest\<close>, the lock descriptor. The optional property
  \<^verbatim>\<open>isOriginalUpdateItem\<close> is \<open>None\<close> when the object does not have it.
\<close>

record item_request =
  lock_id :: string
  lock_vid :: number
  lock_resourceType :: string
  lock_operation :: operation
  lock_isOriginalUpdateItem :: "bool option"

text \<open>The lock-release descriptor of a rollback, \<^verbatim>\<open>{ id, vid, resourceType }\<close>.\<close>

record lock_release =
  rel_id :: string
  rel_vid :: string
  rel_resourceType :: string

subsection \<open>The environment: identifier generation and the wall clock\<close>

text \<open>
  The environment of a call: the table name \<^verbatim>\<open>RESOURCE_TABLE\<close>, a constant of
  \<^verbatim>\<open>dynamoDb.ts\<close> outside the module and a parameter here; the identifiers that
  \<^verbatim>\<open>uuidv4()\<close> returns, call after call; and the times that the clock shows, reading after
  reading. The state counts the calls made so far.
\<close>

record env =
  RESOURCE_TABLE :: string
  uuid_source :: "nat \<Rightarrow> string"
  clock_source :: "nat \<Rightarrow> string"

record world =
  uuid_calls :: nat
  clock_reads :: nat

definition uuidv4 :: "env \<Rightarrow> world \<Rightarrow> string \<times> world" where
  "uuidv4 e w = (uuid_source e (uuid_calls w), w\<lparr>uuid_calls := Suc (uuid_calls w)\<rparr>)"

text \<open>\<^verbatim>\<open>new Date().toISOString()\<close>.\<close>

definition newDateISO :: "env \<Rightarrow> world \<Rightarrow> string \<times> world" where
  "newDateISO e w = (clock_source e (clock_reads w), w\<lparr>clock_reads := Suc (clock_reads w)\<rparr>)"

subsection \<open>Collaborators outside the module\<close>

text \<open>
  Modelled from the spec: the staged document that \<^verbatim>\<open>DynamoDbUtil.prepItemForDdbInsert\<close>
  (in \<^verbatim>\<open>dynamoDbUtil.ts\<close>) returns. The spec's versioned document has an identifier, a
  version number, a tenant scope, a payload and a lifecycle status, and the payload is
  merged with updated metadata; the response of a create or update is populated from this
  newly written version, its version being the version number as a string. The updated
  metadata is the version identifier and the time of staging. The version is kept as the
  staging generator passes it, which is a number or, in the update branch, the string that
  \<open>orZeroPlusOne\<close> gives for an inherited member.
\<close>

record item =
  item_id :: string
  item_vid :: version
  item_tenantId :: "string option"
  item_documentStatus :: document_status
  item_meta :: meta
  item_resource :: resource

definition prepItemForDdbInsert ::
  "env \<Rightarrow> resource \<Rightarrow> string \<Rightarrow> version \<Rightarrow> document_status \<Rightarrow> string option \<Rightarrow> world
     \<Rightarrow> item \<times> world"
where
  "prepItemForDdbInsert e res ident vid status tenantId w =
     (let (ts, w') = newDateISO e w
      in (\<lparr>item_id = ident, item_vid = vid, item_tenantId = tenantId,
           item_documentStatus = status,
           item_meta = \<lparr>versionId = versionToString vid, lastUpdated = ts\<rparr>,
           item_resource = res\<rparr>, w'))"

text \<open>
  Modelled from the spec: \<^verbatim>\<open>buildHashKey\<close> (in \<^verbatim>\<open>dynamoDbUtil.ts\<close>) combines a resource
  identifier and the tenant scope into a lookup key; the key is kept as the pair.
\<close>

datatype hash_key = HashKey string "string option"

definition buildHashKey :: "string \<Rightarrow> string option \<Rightarrow> hash_key" where
  "buildHashKey ident tenantId = HashKey ident tenantId"

text \<open>
  Modelled from the spec: the low-level parameter builder (\<^verbatim>\<open>dynamoDbParamBuilder.ts\<close>).
  Given a status transition, identifier, version, resource type and tenant scope it gives
  a conditional-update request, and given identifier, version and tenant scope a
  conditional-delete request; each request is kept as the record of the arguments it was
  built from; the version argument is the value read from the version mapping.
\<close>

record update_status_param =
  usp_oldStatus :: document_status
  usp_newStatus :: document_status
  usp_id :: string
  usp_vid :: property
  usp_resourceType :: string
  usp_tenantId :: "string option"

definition buildUpdateDocumentStatusParam ::
  "document_status \<Rightarrow> document_status \<Rightarrow> string \<Rightarrow> property \<Rightarrow> string \<Rightarrow> string option
     \<Rightarrow> update_status_param"
where
  "buildUpdateDocumentStatusParam oldStatus newStatus ident vid resourceType tenantId =
     \<lparr>usp_oldStatus = oldStatus, usp_newStatus = newStatus, usp_id = ident, usp_vid = vid,
      usp_resourceType = resourceType, usp_tenantId = tenantId\<rparr>"

record delete_param =
  del_id :: string
  del_vid :: number
  del_tenantId :: "string option"

definition buildDeleteParam :: "string \<Rightarrow> number \<Rightarrow> string option \<Rightarrow> delete_param" where
  "buildDeleteParam ident vid tenantId = \<lparr>del_id = ident, del_vid = vid, del_tenantId = tenantId\<rparr>"

text \<open>
  The put and get requests are object literals of the module itself. The codec
  \<^verbatim>\<open>DynamoDBConverter.marshall\<close> of the AWS SDK changes the representation of an item, not
  its content; a request holds the item as it is.
\<close>

record put_request =
  put_TableName :: string
  put_Item :: item

record get_request =
  get_TableName :: string
  get_Key_id :: hash_key
  get_Key_vid :: property

subsection \<open>The staging generator\<close>

record staging =
  deleteRequests :: "update_status_param list"
  createRequests :: "put_request list"
  updateRequests :: "put_request list"
  readRequests :: "get_request list"
  newLocks :: "item_request list"
  newStagingResponses :: "response list"

definition emptyStaging :: staging where
  "emptyStaging = \<lparr>deleteRequests = [], createRequests = [], updateRequests = [],
     readRequests = [], newLocks = [], newStagingResponses = []\<rparr>"

text \<open>
  \<^verbatim>\<open>addStagingResponseAndItemsLocked\<close>. Reading \<^verbatim>\<open>resource.meta.versionId\<close> throws when the
  resource has no \<^verbatim>\<open>meta\<close>.
\<close>

definition addStagingResponseAndItemsLocked ::
  "operation \<Rightarrow> resource \<Rightarrow> error + response \<times> item_request"
where
  "addStagingResponseAndItemsLocked operation res =
     (case res_meta res of
        None \<Rightarrow> Inl TypeError
      | Some mt \<Rightarrow>
          (let stagingResponse =
                 \<lparr>rsp_id = res_id res, rsp_vid = versionId mt,
                  rsp_resourceType = res_resourceType res, rsp_operation = operation,
                  rsp_resource = Resource res, rsp_lastModified = lastUpdated mt\<rparr>;
               itemLocked =
                 \<lparr>lock_id = res_id res, lock_vid = parseInt (versionId mt),
                  lock_resourceType = res_resourceType res, lock_operation = operation,
                  lock_isOriginalUpdateItem = None\<rparr>
           in Inr (stagingResponse,
                   if operation = Update
                   then itemLocked\<lparr>lock_isOriginalUpdateItem := Some False\<rparr>
                   else itemLocked)))"

text \<open>
  The body of the \<^verbatim>\<open>forEach\<close> of \<^verbatim>\<open>generateStagingRequests\<close>: one request is staged
  into the six accumulators. In the delete and read branches the request object is built
  and pushed first, and \<^verbatim>\<open>vid.toString()\<close> is evaluated after it: it throws when
  \<^verbatim>\<open>idToVersionId[id]\<close> is \<^verbatim>\<open>undefined\<close>.
\<close>

definition stageRequest ::
  "env \<Rightarrow> (string \<rightharpoonup> int) \<Rightarrow> string option \<Rightarrow> staging \<times> world \<Rightarrow> request
     \<Rightarrow> error + staging \<times> world"
where
  "stageRequest e idToVersionId tenantId sw request =
     (let st = fst sw; w = snd sw in
      case req_operation request of
        Create \<Rightarrow>
          (let (generated, w1) = uuidv4 e w;
               ident = (if req_id request \<noteq> [] then req_id request else generated);
               vid = Number 1;
               (Item, w2) = prepItemForDdbInsert e (req_resource request) ident vid PENDING tenantId w1;
               st1 = st\<lparr>createRequests := createRequests st @
                        [\<lparr>put_TableName = RESOURCE_TABLE e, put_Item = Item\<rparr>]\<rparr>
           in case addStagingResponseAndItemsLocked Create
                     ((req_resource request)\<lparr>res_meta := Some (item_meta Item), res_id := ident\<rparr>) of
                Inl err \<Rightarrow> Inl err
              | Inr (stagingResponse, itemLocked) \<Rightarrow>
                  Inr (st1\<lparr>newStagingResponses := newStagingResponses st1 @ [stagingResponse],
                           newLocks := newLocks st1 @ [itemLocked]\<rparr>, w2))
      | Update \<Rightarrow>
          (let ident = res_id (req_resource request);
               vid = orZeroPlusOne (readProperty idToVersionId ident);
               (Item, w1) = prepItemForDdbInsert e (req_resource request) ident vid PENDING tenantId w;
               st1 = st\<lparr>updateRequests := updateRequests st @
                        [\<lparr>put_TableName = RESOURCE_TABLE e, put_Item = Item\<rparr>]\<rparr>
           in case addStagingResponseAndItemsLocked Update
                     ((req_resource request)\<lparr>res_meta := Some (item_meta Item)\<rparr>) of
                Inl err \<Rightarrow> Inl err
              | Inr (stagingResponse, itemLocked) \<Rightarrow>
                  Inr (st1\<lparr>newStagingResponses := newStagingResponses st1 @ [stagingResponse],
                           newLocks := newLocks st1 @ [itemLocked]\<rparr>, w1))
      | Delete \<Rightarrow>
          (let ident = req_id request;
               resourceType = req_resourceType request;
               vid = readProperty idToVersionId ident;
               st1 = st\<lparr>deleteRequests := deleteRequests st @
                        [buildUpdateDocumentStatusParam LOCKED PENDING_DELETE ident vid
                           resourceType tenantId]\<rparr>
           in case propertyToString vid of
                Inl err \<Rightarrow> Inl err
              | Inr vidString \<Rightarrow>
                  (let (ts, w1) = newDateISO e w
                   in Inr (st1\<lparr>newStagingResponses := newStagingResponses st1 @
                                [\<lparr>rsp_id = ident, rsp_vid = vidString,
                                  rsp_resourceType = req_resourceType request,
                                  rsp_operation = req_operation request,
                                  rsp_resource = EmptyObject, rsp_lastModified = ts\<rparr>]\<rparr>, w1)))
      | Read \<Rightarrow>
          (let ident = req_id request;
               vid = readProperty idToVersionId ident;
               st1 = st\<lparr>readRequests := readRequests st @
                        [\<lparr>get_TableName = RESOURCE_TABLE e,
                          get_Key_id = buildHashKey ident tenantId, get_Key_vid = vid\<rparr>]\<rparr>
           in case propertyToString vid of
                Inl err \<Rightarrow> Inl err
              | Inr vidString \<Rightarrow>
                  Inr (st1\<lparr>newStagingResponses := newStagingResponses st1 @
                             [\<lparr>rsp_id = ident, rsp_vid = vidString,
                               rsp_resourceType = req_resourceType request,
                               rsp_operation = req_operation request,
                               rsp_resource = EmptyObject, rsp_lastModified = []\<rparr>]\<rparr>, w))
      | OtherOperation \<Rightarrow> Inr (st, w))"

text \<open>
  \<^verbatim>\<open>Array.prototype.forEach\<close> with a callback that may throw: the entries are visited in
  order, and the first exception ends the loop and is the outcome.
\<close>

fun forEach :: "('s \<Rightarrow> 'a \<Rightarrow> error + 's) \<Rightarrow> 'a list \<Rightarrow> 's \<Rightarrow> error + 's" where
  "forEach f [] s = Inr s"
| "forEach f (x # xs) s = (case f s x of Inl err \<Rightarrow> Inl err | Inr s' \<Rightarrow> forEach f xs s')"

text \<open>
  \<^verbatim>\<open>generateStagingRequests\<close>. The result is the exception thrown, or the six lists
  together with the state of the environment after the call.
\<close>

definition generateStagingRequests ::
  "env \<Rightarrow> request list \<Rightarrow> (string \<rightharpoonup> int) \<Rightarrow> string option \<Rightarrow> world \<Rightarrow> error + staging \<times> world"
where
  "generateStagingRequests e requests idToVersionId tenantId w =
     forEach (stageRequest e idToVersionId tenantId) requests (emptyStaging, w)"

subsection \<open>The rollback generator\<close>

record rollback =
  transactionRequests :: "delete_param list"
  itemsToRemoveFromLock :: "lock_release list"

definition generateDeleteLatestRecordAndItemToRemoveFromLock ::
  "string \<Rightarrow> string \<Rightarrow> string \<Rightarrow> string option \<Rightarrow> delete_param \<times> lock_release"
where
  "generateDeleteLatestRecordAndItemToRemoveFromLock resourceType ident vid tenantId =
     (buildDeleteParam ident (parseInt vid) tenantId,
      \<lparr>rel_id = ident, rel_vid = vid, rel_resourceType = resourceType\<rparr>)"

text \<open>
  The body of the \<^verbatim>\<open>forEach\<close> of \<^verbatim>\<open>generateRollbackRequests\<close>; it throws nothing, so the
  loop is a left fold.
\<close>

definition rollbackResponse :: "string option \<Rightarrow> rollback \<Rightarrow> response \<Rightarrow> rollback" where
  "rollbackResponse tenantId acc stagingResponse =
     (let compensate =
            (let (transactionRequest, itemToRemoveFromLock) =
                   generateDeleteLatestRecordAndItemToRemoveFromLock
                     (rsp_resourceType stagingResponse) (rsp_id stagingResponse)
                     (rsp_vid stagingResponse) tenantId
             in acc\<lparr>transactionRequests := transactionRequests acc @ [transactionRequest],
                     itemsToRemoveFromLock := itemsToRemoveFromLock acc @ [itemToRemoveFromLock]\<rparr>)
      in case rsp_operation stagingResponse of
           Create \<Rightarrow> compensate
         | Update \<Rightarrow> compensate
         | Delete \<Rightarrow> acc
         | Read \<Rightarrow> acc
         | OtherOperation \<Rightarrow> acc)"

definition generateRollbackRequests :: "response list \<Rightarrow> string option \<Rightarrow> rollback" where
  "generateRollbackRequests bundleEntryResponses tenantId =
     foldl (rollbackResponse tenantId)
       \<lparr>transactionRequests = [], itemsToRemoveFromLock = []\<rparr> bundleEntryResponses"

subsection \<open>The read reconciler\<close>

text \<open>
  The raw read result (\<^verbatim>\<open>any\<close> in the source) has the shape of the store's answer to a
  transactional get: an object whose optional \<^verbatim>\<open>Responses\<close> is an array of entries, each
  with an optional \<^verbatim>\<open>Item\<close>. An entry is the \<open>option\<close> of its item; the whole result may
  be \<^verbatim>\<open>undefined\<close>.
\<close>

record 'raw read_result =
  Responses :: "'raw option list option"

text \<open>
  \<^verbatim>\<open>readResult?.Responses[index]?.Item\<close>: \<^verbatim>\<open>undefined\<close> for a missing result, an index past
  the end of the array or an entry without item; indexing a missing array throws.
\<close>

definition readItem :: "'raw read_result option \<Rightarrow> nat \<Rightarrow> error + 'raw option" where
  "readItem readResult index =
     (case readResult of
        None \<Rightarrow> Inr None
      | Some rr \<Rightarrow>
          (case Responses rr of
             None \<Rightarrow> Inl TypeError
           | Some rs \<Rightarrow> Inr (if index < length rs then rs ! index else None)))"

text \<open>
  What the reconciler writes into a read entry: the decoded, cleaned item and its
  \<^verbatim>\<open>meta.lastUpdated\<close>, or the empty string when that is missing or empty.
\<close>

definition fillReadEntry :: "response \<Rightarrow> resource \<Rightarrow> response" where
  "fillReadEntry stagingResponse it =
     stagingResponse
       \<lparr>rsp_resource := Resource it,
        rsp_lastModified :=
          (case res_meta it of
             None \<Rightarrow> []
           | Some mt \<Rightarrow> if lastUpdated mt \<noteq> [] then lastUpdated mt else [])\<rparr>"

text \<open>
  The \<^verbatim>\<open>for\<close> loop of \<^verbatim>\<open>populateBundleEntryResponseWithReadResult\<close>, from position \<open>i\<close> with
  \<open>index\<close> raw results consumed. The array is updated in place; the result is the
  array as the loop leaves it and the exception that ended the loop, if one did. The
  codec \<^verbatim>\<open>DynamoDBConverter.unmarshall\<close> and the helper \<^verbatim>\<open>DynamoDbUtil.cleanItem\<close> are
  parameters.
\<close>

function populateLoop ::
  "('raw \<Rightarrow> 'doc) \<Rightarrow> ('doc \<Rightarrow> resource) \<Rightarrow> 'raw read_result option \<Rightarrow> nat \<Rightarrow> nat
     \<Rightarrow> response list \<Rightarrow> response list \<times> error option"
where
  "populateLoop unmarshall cleanItem readResult i index arr =
     (if i < length arr then
        (if rsp_operation (arr ! i) = Read then
           (case readItem readResult index of
              Inl err \<Rightarrow> (arr, Some err)
            | Inr None \<Rightarrow> (arr, Some (Error ''Failed to fulfill all READ requests''))
            | Inr (Some raw) \<Rightarrow>
                populateLoop unmarshall cleanItem readResult (i + 1) (index + 1)
                  (arr[i := fillReadEntry (arr ! i) (cleanItem (unmarshall raw))]))
         else populateLoop unmarshall cleanItem readResult (i + 1) index arr)
      else (arr, None))"
  by pat_completeness auto
termination
  by (relation "measure (\<lambda>(unmarshall, cleanItem, readResult, i, index, arr). length arr - i)") auto

declare populateLoop.simps [simp del]

text \<open>
  \<^verbatim>\<open>populateBundleEntryResponseWithReadResult\<close>: the outcome of the call (the exception,
  or the returned array) and the content of the caller's array after it. The returned
  array is the caller's array itself.
\<close>

definition populateBundleEntryResponseWithReadResult ::
  "('raw \<Rightarrow> 'doc) \<Rightarrow> ('doc \<Rightarrow> resource) \<Rightarrow> response list \<Rightarrow> 'raw read_result option
     \<Rightarrow> (error + response list) \<times> response list"
where
  "populateBundleEntryResponseWithReadResult unmarshall cleanItem bundleEntryResponses readResult =
     (case populateLoop unmarshall cleanItem readResult 0 0 bundleEntryResponses of
        (arr, Some err) \<Rightarrow> (Inl err, arr)
      | (arr, None) \<Rightarrow> (Inr arr, arr))"

subsection \<open>Example inputs\<close>

text \<open>Concrete inputs on which the theorems below are instantiated.\<close>

definition exampleEnv :: env where
  "exampleEnv = \<lparr>RESOURCE_TABLE = ''resource-db'',
     uuid_source = (\<lambda>n. ''uuid-'' @ decimal n),
     clock_source = (\<lambda>n. ''2021-03-04T05:06:0'' @ decimal n @ ''Z'')\<rparr>"

definition startWorld :: world where
  "startWorld = \<lparr>uuid_calls = 0, clock_reads = 0\<rparr>"

definition patient :: "string \<Rightarrow> string \<Rightarrow> resource" where
  "patient ident name = \<lparr>res_id = ident, res_resourceType = ''Patient'', res_meta = None,
     res_content = [(''name'', name)]\<rparr>"

definition createRequest :: request where
  "createRequest = \<lparr>req_operation = Create, req_resourceType = ''Patient'', req_id = ''c1'',
     req_resource = patient [] ''Ada''\<rparr>"

definition updateRequest :: request where
  "updateRequest = \<lparr>req_operation = Update, req_resourceType = ''Patient'', req_id = ''p1'',
     req_resource = patient ''p1'' ''Bob''\<rparr>"

definition deleteRequest :: request where
  "deleteRequest = \<lparr>req_operation = Delete, req_resourceType = ''Patient'', req_id = ''p2'',
     req_resource = patient ''p2'' []\<rparr>"

definition readRequest :: request where
  "readRequest = \<lparr>req_operation = Read, req_resourceType = ''Patient'', req_id = ''p3'',
     req_resource = patient ''p3'' []\<rparr>"

definition exampleVersions :: "string \<rightharpoonup> int" where
  "exampleVersions = [''p1'' \<mapsto> 2, ''p2'' \<mapsto> 3, ''p3'' \<mapsto> 1]"

definition exampleBatch :: "request list" where
  "exampleBatch = [createRequest, updateRequest, deleteRequest, readRequest]"

text \<open>What the staging generator returns on \<open>exampleBatch\<close>.\<close>

definition exampleStaging :: staging where
  "exampleStaging =
     \<lparr>deleteRequests =
        [\<lparr>usp_oldStatus = LOCKED, usp_newStatus = PENDING_DELETE, usp_id = ''p2'',
          usp_vid = Own 3, usp_resourceType = ''Patient'', usp_tenantId = None\<rparr>],
      createRequests =
        [\<lparr>put_TableName = ''resource-db'',
          put_Item =
            \<lparr>item_id = ''c1'', item_vid = Number 1, item_tenantId = None,
             item_documentStatus = PENDING,
             item_meta = \<lparr>versionId = ''1'', lastUpdated = ''2021-03-04T05:06:00Z''\<rparr>,
             item_resource = patient [] ''Ada''\<rparr>\<rparr>],
      updateRequests =
        [\<lparr>put_TableName = ''resource-db'',
          put_Item =
            \<lparr>item_id = ''p1'', item_vid = Number 3, item_tenantId = None,
             item_documentStatus = PENDING,
             item_meta = \<lparr>versionId = ''3'', lastUpdated = ''2021-03-04T05:06:01Z''\<rparr>,
             item_resource = patient ''p1'' ''Bob''\<rparr>\<rparr>],
      readRequests =
        [\<lparr>get_TableName = ''resource-db'', get_Key_id = HashKey ''p3'' None,
          get_Key_vid = Own 1\<rparr>],
      newLocks =
        [\<lparr>lock_id = ''c1'', lock_vid = Num 1, lock_resourceType = ''Patient'',
          lock_operation = Create, lock_isOriginalUpdateItem = None\<rparr>,
         \<lparr>lock_id = ''p1'', lock_vid = Num 3, lock_resourceType = ''Patient'',
          lock_operation = Update, lock_isOriginalUpdateItem = Some False\<rparr>],
      newStagingResponses =
        [\<lparr>rsp_id = ''c1'', rsp_vid = ''1'', rsp_resourceType = ''Patient'',
          rsp_operation = Create,
          rsp_resource = Resource ((patient ''c1'' ''Ada'')
            \<lparr>res_meta := Some \<lparr>versionId = ''1'', lastUpdated = ''2021-03-04T05:06:00Z''\<rparr>\<rparr>),
          rsp_lastModified = ''2021-03-04T05:06:00Z''\<rparr>,
         \<lparr>rsp_id = ''p1'', rsp_vid = ''3'', rsp_resourceType = ''Patient'',
          rsp_operation = Update,
          rsp_resource = Resource ((patient ''p1'' ''Bob'')
            \<lparr>res_meta := Some \<lparr>versionId = ''3'', lastUpdated = ''2021-03-04T05:06:01Z''\<rparr>\<rparr>),
          rsp_lastModified = ''2021-03-04T05:06:01Z''\<rparr>,
         \<lparr>rsp_id = ''p2'', rsp_vid = ''3'', rsp_resourceType = ''Patient'',
          rsp_operation = Delete, rsp_resource = EmptyObject,
          rsp_lastModified = ''2021-03-04T05:06:02Z''\<rparr>,
         \<lparr>rsp_id = ''p3'', rsp_vid = ''1'', rsp_resourceType = ''Patient'',
          rsp_operation = Read, rsp_resource = EmptyObject, rsp_lastModified = []\<rparr>]\<rparr>"

text \<open>
  An update of a resource whose identifier, a well-formed FHIR identifier, is the name of
  an inherited member; and what the staging generator returns on it with an empty version
  mapping.
\<close>

definition constructorUpdate :: request where
  "constructorUpdate = \<lparr>req_operation = Update, req_resourceType = ''Patient'',
     req_id = ''constructor'', req_resource = patient ''constructor'' ''Eve''\<rparr>"

definition constructorStaging :: staging where
  "constructorStaging =
     \<lparr>deleteRequests = [], createRequests = [],
      updateRequests =
        [\<lparr>put_TableName = ''resource-db'',
          put_Item =
            \<lparr>item_id = ''constructor'',
             item_vid = Text ''function Object() { [native code] }1'',
             item_tenantId = None, item_documentStatus = PENDING,
             item_meta = \<lparr>versionId = ''function Object() { [native code] }1'',
                          lastUpdated = ''2021-03-04T05:06:00Z''\<rparr>,
             item_resource = patient ''constructor'' ''Eve''\<rparr>\<rparr>],
      readRequests = [],
      newLocks =
        [\<lparr>lock_id = ''constructor'', lock_vid = NaN, lock_resourceType = ''Patient'',
          lock_operation = Update, lock_isOriginalUpdateItem = Some False\<rparr>],
      newStagingResponses =
        [\<lparr>rsp_id = ''constructor'', rsp_vid = ''function Object() { [native code] }1'',
          rsp_resourceType = ''Patient'', rsp_operation = Update,
          rsp_resource = Resource ((patient ''constructor'' ''Eve'')
            \<lparr>res_meta := Some \<lparr>versionId = ''function Object() { [native code] }1'',
                                   lastUpdated = ''2021-03-04T05:06:00Z''\<rparr>\<rparr>),
          rsp_lastModified = ''2021-03-04T05:06:00Z''\<rparr>]\<rparr>"

text \<open>The state after one reading of the clock.\<close>

definition laterWorld :: world where
  "laterWorld = \<lparr>uuid_calls = 0, clock_reads = 1\<rparr>"

text \<open>
  Responses to reconcile, two of them reads; stored documents as the store returns them,
  with an internal field that the example of \<^verbatim>\<open>cleanItem\<close> strips; a read result with a raw
  result for each read, one with a single raw result, and the reconciled responses.
\<close>

definition readPlaceholder :: "string \<Rightarrow> response" where
  "readPlaceholder ident = \<lparr>rsp_id = ident, rsp_vid = ''1'', rsp_resourceType = ''Patient'',
     rsp_operation = Read, rsp_resource = EmptyObject, rsp_lastModified = []\<rparr>"

definition deletedResponse :: response where
  "deletedResponse = \<lparr>rsp_id = ''p2'', rsp_vid = ''3'', rsp_resourceType = ''Patient'',
     rsp_operation = Delete, rsp_resource = EmptyObject,
     rsp_lastModified = ''2021-03-04T05:06:02Z''\<rparr>"

definition exampleResponses :: "response list" where
  "exampleResponses = [readPlaceholder ''p3'', deletedResponse, readPlaceholder ''p4'']"

definition stored :: "string \<Rightarrow> string \<Rightarrow> string \<Rightarrow> resource" where
  "stored ident name ts = \<lparr>res_id = ident, res_resourceType = ''Patient'',
     res_meta = Some \<lparr>versionId = ''1'', lastUpdated = ts\<rparr>,
     res_content = [(''name'', name), (''documentStatus'', ''LOCKED'')]\<rparr>"

definition exampleCleanItem :: "resource \<Rightarrow> resource" where
  "exampleCleanItem doc =
     doc\<lparr>res_content := filter (\<lambda>field. fst field \<noteq> ''documentStatus'') (res_content doc)\<rparr>"

definition exampleReadResult :: "resource read_result option" where
  "exampleReadResult = Some \<lparr>Responses = Some
     [Some (stored ''p3'' ''Cy'' ''2021-02-02T02:02:02Z''),
      Some (stored ''p4'' ''Di'' ''2021-01-01T01:01:01Z'')]\<rparr>"

definition shortReadResult :: "resource read_result option" where
  "shortReadResult = Some \<lparr>Responses = Some
     [Some (stored ''p3'' ''Cy'' ''2021-02-02T02:02:02Z'')]\<rparr>"

definition exampleReconciled :: "response list" where
  "exampleReconciled =
     [\<lparr>rsp_id = ''p3'', rsp_vid = ''1'', rsp_resourceType = ''Patient'', rsp_operation = Read,
       rsp_resource = Resource
         \<lparr>res_id = ''p3'', res_resourceType = ''Patient'',
          res_meta = Some \<lparr>versionId = ''1'', lastUpdated = ''2021-02-02T02:02:02Z''\<rparr>,
          res_content = [(''name'', ''Cy'')]\<rparr>,
       rsp_lastModified = ''2021-02-02T02:02:02Z''\<rparr>,
      deletedResponse,
      \<lparr>rsp_id = ''p4'', rsp_vid = ''1'', rsp_resourceType = ''Patient'', rsp_operation = Read,
       rsp_resource = Resource
         \<lparr>res_id = ''p4'', res_resourceType = ''Patient'',
          res_meta = Some \<lparr>versionId = ''1'', lastUpdated = ''2021-01-01T01:01:01Z''\<rparr>,
          res_content = [(''name'', ''Di'')]\<rparr>,
       rsp_lastModified = ''2021-01-01T01:01:01Z''\<rparr>]"

section \<open>Properties\<close>

subsection \<open>Loops with a throwing body\<close>

lemma forEach_contributions:
  assumes step: "\<And>s x s'. x \<in> set xs \<Longrightarrow> f s x = Inr s' \<Longrightarrow> proj s' = proj s @ contrib x"
  shows "forEach f xs s = Inr s' \<Longrightarrow> proj s' = proj s @ concat (map contrib xs)"
  using step
proof (induction xs arbitrary: s)
  case Nil
  then show ?case by simp
next
  case (Cons x xs)
  from Cons.prems(1) obtain s1 where s1: "f s x = Inr s1" and rest: "forEach f xs s1 = Inr s'"
    by (auto split: sum.splits)
  have "proj s1 = proj s @ contrib x" using Cons.prems(2) s1 by simp
  moreover have "proj s' = proj s1 @ concat (map contrib xs)"
    using Cons.IH [OF rest] Cons.prems(2) by simp
  ultimately show ?case by simp
qed

lemma forEach_invariant:
  assumes "forEach f xs s = Inr s'" and "P s"
    and "\<And>s x s'. x \<in> set xs \<Longrightarrow> P s \<Longrightarrow> f s x = Inr s' \<Longrightarrow> P s'"
  shows "P s'"
  using assms
proof (induction xs arbitrary: s)
  case Nil
  then show ?case by simp
next
  case (Cons x xs)
  from Cons.prems(1) obtain s1 where s1: "f s x = Inr s1" and rest: "forEach f xs s1 = Inr s'"
    by (auto split: sum.splits)
  have "x \<in> set (x # xs)" by simp
  then have "P s1" using Cons.prems(2) s1 by (rule Cons.prems(3))
  moreover have "P s'" if "y \<in> set xs" "P s" "f s y = Inr s'" for s y s'
  proof -
    from that(1) have "y \<in> set (x # xs)" by simp
    then show ?thesis using that(2,3) by (rule Cons.prems(3))
  qed
  ultimately show ?case using rest by (rule Cons.IH [rotated])
qed

lemma forEach_succeeds:
  assumes "\<And>s x. x \<in> set xs \<Longrightarrow> \<exists>s'. f s x = Inr s'"
  shows "\<exists>s'. forEach f xs s = Inr s'"
  using assms
proof (induction xs arbitrary: s)
  case Nil
  then show ?case by simp
next
  case (Cons x xs)
  then obtain s1 where "f s x = Inr s1" by (meson list.set_intros(1))
  then show ?case using Cons by simp
qed

lemma forEach_fails:
  assumes "x \<in> set xs" and "\<And>s. f s x = Inl err"
    and "\<And>s y err'. y \<in> set xs \<Longrightarrow> f s y = Inl err' \<Longrightarrow> err' = err"
  shows "forEach f xs s = Inl err"
  using assms
proof (induction xs arbitrary: s)
  case Nil
  then show ?case by simp
next
  case (Cons y ys)
  show ?case
  proof (cases "f s y")
    case (Inl err')
    then have "err' = err" using Cons.prems(3) [of y s err'] by simp
    with Inl show ?thesis by simp
  next
    case (Inr s1)
    then have "x \<noteq> y" using Cons.prems(2) [of s] by auto
    then have mem: "x \<in> set ys" using Cons.prems(1) by simp
    have same: "err' = err" if "z \<in> set ys" "f s z = Inl err'" for s z err'
    proof -
      from that(1) have "z \<in> set (y # ys)" by simp
      then show ?thesis using that(2) by (rule Cons.prems(3))
    qed
    have "forEach f ys s1 = Inl err" using mem Cons.prems(2) same by (rule Cons.IH)
    with Inr show ?thesis by simp
  qed
qed

lemma concat_map_if: "concat (map (\<lambda>x. if P x then [g x] else []) xs) = map g (filter P xs)"
  by (induction xs) auto

subsection \<open>Decimal strings\<close>

text \<open>Parsing the decimal rendering of an integer gives the integer back.\<close>

lemma isDigit_digitChar: "d < 10 \<Longrightarrow> isDigit (digitChar d)"
  by (simp add: isDigit_def digitChar_def less_eq_char_def)

lemma digitValue_digitChar: "d < 10 \<Longrightarrow> digitValue (digitChar d) = d"
  by (simp add: digitValue_def digitChar_def)


lemma digitChar_code: "d < 10 \<Longrightarrow> (of_char (digitChar d) :: nat) = 48 + d"
  by (simp add: digitChar_def)

lemma digitChar_not_space: "d < 10 \<Longrightarrow> \<not> isWhiteSpace (digitChar d)"
  by (auto simp: isWhiteSpace_def dest!: arg_cong [where f = "of_char :: char \<Rightarrow> nat"] simp: digitChar_code)

lemma digitChar_not_sign: "d < 10 \<Longrightarrow> digitChar d \<noteq> CHR ''-'' \<and> digitChar d \<noteq> CHR ''+''"
  by (auto dest!: arg_cong [where f = "of_char :: char \<Rightarrow> nat"] simp: digitChar_code)

lemma decimal_nonempty: "decimal n \<noteq> []"
  by (subst decimal.simps) simp

lemma hd_decimal: "\<exists>d<10. hd (decimal n) = digitChar d"
proof (induction n rule: decimal.induct)
  case (1 n)
  show ?case
  proof (cases "n < 10")
    case True
    then show ?thesis by (subst decimal.simps) auto
  next
    case False
    with 1 show ?thesis
      by (subst decimal.simps) (simp add: decimal_nonempty)
  qed
qed

lemma decimal_digits: "c \<in> set (decimal n) \<Longrightarrow> isDigit c"
proof (induction n arbitrary: c rule: decimal.induct)
  case (1 n)
  then show ?case
    by (subst (asm) (2) decimal.simps) (auto simp: isDigit_digitChar split: if_splits)
qed

lemma digitsValue_snoc: "digitsValue (ds @ [c]) = 10 * digitsValue ds + digitValue c"
  by (simp add: digitsValue_def)

lemma digitsValue_decimal: "digitsValue (decimal n) = n"
proof (induction n rule: decimal.induct)
  case (1 n)
  show ?case
  proof (cases "n < 10")
    case True
    then show ?thesis
      by (subst decimal.simps) (simp add: digitsValue_def digitValue_digitChar)
  next
    case False
    with 1 show ?thesis
      by (subst decimal.simps) (simp add: digitsValue_snoc digitValue_digitChar)
  qed
qed

lemma takeWhile_decimal: "takeWhile isDigit (decimal n) = decimal n"
  by (simp add: decimal_digits)

lemma dropWhile_decimal: "dropWhile isWhiteSpace (decimal n) = decimal n"
proof -
  obtain d where "d < 10" "hd (decimal n) = digitChar d" using hd_decimal by blast
  then have "\<not> isWhiteSpace (hd (decimal n))" by (simp add: digitChar_not_space)
  then show ?thesis using decimal_nonempty [of n] by (cases "decimal n") auto
qed

lemma hd_decimal_nsign: "hd (decimal n) \<noteq> CHR ''-'' \<and> hd (decimal n) \<noteq> CHR ''+''"
  using hd_decimal [of n] digitChar_not_sign by metis

lemma parseInt_toString: "parseInt (toString v) = Num v"
proof (cases "v < 0")
  case True
  have "\<not> isWhiteSpace CHR ''-''" by (simp add: isWhiteSpace_def)
  with True show ?thesis
    by (simp add: parseInt_def toString_def Let_def takeWhile_decimal decimal_nonempty digitsValue_decimal)
next
  case False
  then show ?thesis
    using hd_decimal_nsign [of "nat v"]
    by (simp add: parseInt_def toString_def Let_def dropWhile_decimal takeWhile_decimal decimal_nonempty digitsValue_decimal)
qed

lemma toString_one: "toString 1 = ''1''"
  by code_simp

lemma parseInt_one: "parseInt ''1'' = Num 1"
  using parseInt_toString [of 1] by (simp add: toString_one)

text \<open>
  The string of an inherited member denotes no number, whatever follows it: it starts with
  a letter or a bracket.
\<close>

lemma parseInt_no_digit:
  "\<not> isWhiteSpace c \<Longrightarrow> c \<noteq> CHR ''-'' \<Longrightarrow> c \<noteq> CHR ''+'' \<Longrightarrow> \<not> isDigit c \<Longrightarrow>
     parseInt (c # s) = NaN"
  by (simp add: parseInt_def)

lemma objectPrototype_hd:
  "objectPrototype k = Some s \<Longrightarrow> \<exists>u. s = CHR ''f'' # u \<or> s = CHR ''['' # u"
  by (auto simp: objectPrototype_def split: if_splits)

lemma parseInt_inherited: "objectPrototype k = Some s \<Longrightarrow> parseInt (s @ u) = NaN"
  by (auto dest!: objectPrototype_hd intro!: parseInt_no_digit
           simp: isWhiteSpace_def isDigit_def less_eq_char_def)

subsection \<open>One step of the staging loop\<close>

text \<open>Reading the version mapping, case by case.\<close>

lemma readProperty_Own [simp]: "m k = Some v \<Longrightarrow> readProperty m k = Own v"
  by (simp add: readProperty_def)

lemma readProperty_Undefined [simp]:
  "m k = None \<Longrightarrow> objectPrototype k = None \<Longrightarrow> readProperty m k = Undefined"
  by (simp add: readProperty_def)

lemma readProperty_Inherited [simp]:
  "m k = None \<Longrightarrow> objectPrototype k = Some s \<Longrightarrow> readProperty m k = Inherited s"
  by (simp add: readProperty_def)

lemma readProperty_Undefined_iff:
  "readProperty m k = Undefined \<longleftrightarrow> m k = None \<and> objectPrototype k = None"
  by (simp add: readProperty_def split: option.split)

lemma propertyToString_error:
  "propertyToString p = Inl err \<longleftrightarrow> p = Undefined \<and> err = TypeError"
  by (cases p) auto

lemma orZeroPlusOne_Own [simp]: "orZeroPlusOne (Own v) = Number (v + 1)"
  by simp

text \<open>
  The loop body throws only a \<^verbatim>\<open>TypeError\<close>, and only on a delete or read of an identifier
  that has no entry in the version mapping and names no inherited member.
\<close>

lemma stageRequest_error:
  "stageRequest e m t sw r = Inl err \<Longrightarrow>
     err = TypeError \<and> (req_operation r = Delete \<or> req_operation r = Read) \<and>
     m (req_id r) = None \<and> objectPrototype (req_id r) = None"
  by (auto simp: stageRequest_def Let_def addStagingResponseAndItemsLocked_def
                 propertyToString_error readProperty_Undefined_iff
           split: operation.splits option.splits prod.splits sum.splits)

lemma stageRequest_unknown_version:
  "req_operation r = Delete \<or> req_operation r = Read \<Longrightarrow> m (req_id r) = None \<Longrightarrow>
     objectPrototype (req_id r) = None \<Longrightarrow> stageRequest e m t sw r = Inl TypeError"
  by (auto simp: stageRequest_def Let_def)

lemma stageRequest_returns:
  "(req_operation r = Delete \<or> req_operation r = Read \<longrightarrow> m (req_id r) \<noteq> None) \<Longrightarrow>
     \<exists>sw'. stageRequest e m t sw r = Inr sw'"
  using stageRequest_error [of e m t sw r] by (cases "stageRequest e m t sw r") auto

text \<open>What the loop body returns, by operation kind.\<close>

lemma stageRequest_Create:
  assumes "req_operation r = Create"
  shows "stageRequest e m t (st, w) r =
    (let ident = (if req_id r \<noteq> [] then req_id r else uuid_source e (uuid_calls w));
         mt = \<lparr>versionId = toString 1, lastUpdated = clock_source e (clock_reads w)\<rparr>
     in Inr (st\<lparr>createRequests := createRequests st @
                 [\<lparr>put_TableName = RESOURCE_TABLE e,
                   put_Item = \<lparr>item_id = ident, item_vid = Number 1, item_tenantId = t,
                               item_documentStatus = PENDING, item_meta = mt,
                               item_resource = req_resource r\<rparr>\<rparr>],
               newStagingResponses := newStagingResponses st @
                 [\<lparr>rsp_id = ident, rsp_vid = toString 1,
                   rsp_resourceType = res_resourceType (req_resource r),
                   rsp_operation = Create,
                   rsp_resource = Resource ((req_resource r)\<lparr>res_meta := Some mt, res_id := ident\<rparr>),
                   rsp_lastModified = clock_source e (clock_reads w)\<rparr>],
               newLocks := newLocks st @
                 [\<lparr>lock_id = ident, lock_vid = parseInt (toString 1),
                   lock_resourceType = res_resourceType (req_resource r),
                   lock_operation = Create, lock_isOriginalUpdateItem = None\<rparr>]\<rparr>,
             w\<lparr>uuid_calls := Suc (uuid_calls w), clock_reads := Suc (clock_reads w)\<rparr>))"
  using assms
  by (simp add: stageRequest_def uuidv4_def prepItemForDdbInsert_def newDateISO_def
        addStagingResponseAndItemsLocked_def Let_def)

lemma stageRequest_Update:
  assumes "req_operation r = Update"
  shows "stageRequest e m t (st, w) r =
    (let ident = res_id (req_resource r);
         vid = orZeroPlusOne (readProperty m ident);
         mt = \<lparr>versionId = versionToString vid, lastUpdated = clock_source e (clock_reads w)\<rparr>
     in Inr (st\<lparr>updateRequests := updateRequests st @
                 [\<lparr>put_TableName = RESOURCE_TABLE e,
                   put_Item = \<lparr>item_id = ident, item_vid = vid, item_tenantId = t,
                               item_documentStatus = PENDING, item_meta = mt,
                               item_resource = req_resource r\<rparr>\<rparr>],
               newStagingResponses := newStagingResponses st @
                 [\<lparr>rsp_id = ident, rsp_vid = versionToString vid,
                   rsp_resourceType = res_resourceType (req_resource r),
                   rsp_operation = Update,
                   rsp_resource = Resource ((req_resource r)\<lparr>res_meta := Some mt\<rparr>),
                   rsp_lastModified = clock_source e (clock_reads w)\<rparr>],
               newLocks := newLocks st @
                 [\<lparr>lock_id = ident, lock_vid = parseInt (versionToString vid),
                   lock_resourceType = res_resourceType (req_resource r),
                   lock_operation = Update, lock_isOriginalUpdateItem = Some False\<rparr>]\<rparr>,
             w\<lparr>clock_reads := Suc (clock_reads w)\<rparr>))"
  using assms
  by (simp add: stageRequest_def prepItemForDdbInsert_def newDateISO_def
        addStagingResponseAndItemsLocked_def Let_def)

lemma stageRequest_Delete:
  assumes "req_operation r = Delete" and "propertyToString (readProperty m (req_id r)) = Inr s"
  shows "stageRequest e m t (st, w) r =
     Inr (st\<lparr>deleteRequests := deleteRequests st @
                 [buildUpdateDocumentStatusParam LOCKED PENDING_DELETE (req_id r)
                    (readProperty m (req_id r)) (req_resourceType r) t],
               newStagingResponses := newStagingResponses st @
                 [\<lparr>rsp_id = req_id r, rsp_vid = s,
                   rsp_resourceType = req_resourceType r, rsp_operation = Delete,
                   rsp_resource = EmptyObject,
                   rsp_lastModified = clock_source e (clock_reads w)\<rparr>]\<rparr>,
          w\<lparr>clock_reads := Suc (clock_reads w)\<rparr>)"
  using assms by (simp add: stageRequest_def newDateISO_def Let_def)

lemma stageRequest_Read:
  assumes "req_operation r = Read" and "propertyToString (readProperty m (req_id r)) = Inr s"
  shows "stageRequest e m t (st, w) r =
     Inr (st\<lparr>readRequests := readRequests st @
                 [\<lparr>get_TableName = RESOURCE_TABLE e,
                   get_Key_id = buildHashKey (req_id r) t,
                   get_Key_vid = readProperty m (req_id r)\<rparr>],
               newStagingResponses := newStagingResponses st @
                 [\<lparr>rsp_id = req_id r, rsp_vid = s,
                   rsp_resourceType = req_resourceType r, rsp_operation = Read,
                   rsp_resource = EmptyObject, rsp_lastModified = []\<rparr>]\<rparr>, w)"
  using assms by (simp add: stageRequest_def Let_def)

lemma stageRequest_Other:
  "req_operation r = OtherOperation \<Longrightarrow> stageRequest e m t (st, w) r = Inr (st, w)"
  by (simp add: stageRequest_def)

lemma stageRequest_Inr_cases:
  assumes "stageRequest e m t (st, w) r = Inr sw'"
  obtains (Create) "req_operation r = Create"
    | (Update) "req_operation r = Update"
    | (Delete) s where "req_operation r = Delete"
        "propertyToString (readProperty m (req_id r)) = Inr s"
    | (Read) s where "req_operation r = Read"
        "propertyToString (readProperty m (req_id r)) = Inr s"
    | (Other) "req_operation r = OtherOperation"
proof (cases "req_operation r")
  case Delete
  with assms obtain s where "propertyToString (readProperty m (req_id r)) = Inr s"
    by (cases "propertyToString (readProperty m (req_id r))")
       (auto simp: stageRequest_def Let_def)
  with Delete show ?thesis by (rule that(3))
next
  case Read
  with assms obtain s where "propertyToString (readProperty m (req_id r)) = Inr s"
    by (cases "propertyToString (readProperty m (req_id r))")
       (auto simp: stageRequest_def Let_def)
  with Read show ?thesis by (rule that(4))
qed (use that in auto)

subsection \<open>The staging loop as a whole\<close>

lemma staging_contributions:
  assumes run: "generateStagingRequests e requests m t w = Inr (st, w')"
    and step: "\<And>st w r st' w'. r \<in> set requests \<Longrightarrow> stageRequest e m t (st, w) r = Inr (st', w')
                 \<Longrightarrow> proj st' = proj st @ contrib r"
    and init: "proj emptyStaging = []"
  shows "proj st = concat (map contrib requests)"
proof -
  have "(proj \<circ> fst) (st, w') = (proj \<circ> fst) (emptyStaging, w) @ concat (map contrib requests)"
  proof (rule forEach_contributions [where f = "stageRequest e m t"])
    show "forEach (stageRequest e m t) requests (emptyStaging, w) = Inr (st, w')"
      using run by (simp add: generateStagingRequests_def)
  next
    fix s x s'
    assume "x \<in> set requests" "stageRequest e m t s x = Inr s'"
    then show "(proj \<circ> fst) s' = (proj \<circ> fst) s @ contrib x"
      using step [of x "fst s" "snd s" "fst s'" "snd s'"] by simp
  qed
  then show ?thesis using init by simp
qed

lemma staging_returns:
  assumes "\<forall>r\<in>set requests. req_operation r = Delete \<or> req_operation r = Read
             \<longrightarrow> m (req_id r) \<noteq> None"
  shows "\<exists>st w'. generateStagingRequests e requests m t w = Inr (st, w')"
proof -
  have "\<exists>s'. forEach (stageRequest e m t) requests (emptyStaging, w) = Inr s'"
  proof (rule forEach_succeeds)
    fix s x
    assume "x \<in> set requests"
    with assms have "req_operation x = Delete \<or> req_operation x = Read \<longrightarrow> m (req_id x) \<noteq> None"
      by blast
    then show "\<exists>s'. stageRequest e m t s x = Inr s'" by (rule stageRequest_returns)
  qed
  then show ?thesis by (auto simp: generateStagingRequests_def)
qed

lemma staging_invariant:
  assumes run: "generateStagingRequests e requests m t w = Inr (st, w')"
    and init: "P emptyStaging"
    and step: "\<And>st w r st' w'. r \<in> set requests \<Longrightarrow> P st
                 \<Longrightarrow> stageRequest e m t (st, w) r = Inr (st', w') \<Longrightarrow> P st'"
  shows "P st"
proof -
  have "(P \<circ> fst) (st, w')"
  proof (rule forEach_invariant [where f = "stageRequest e m t" and s = "(emptyStaging, w)"])
    show "forEach (stageRequest e m t) requests (emptyStaging, w) = Inr (st, w')"
      using run by (simp add: generateStagingRequests_def)
    show "(P \<circ> fst) (emptyStaging, w)" using init by simp
  next
    fix s x s'
    assume "x \<in> set requests" "(P \<circ> fst) s" "stageRequest e m t s x = Inr s'"
    then show "(P \<circ> fst) s'"
      using step [of x "fst s" "snd s" "fst s'" "snd s'"] by simp
  qed
  then show ?thesis by simp
qed

subsection \<open>The staging generator: order and cardinality of the responses\<close>

lemma step_response_operations:
  assumes "stageRequest e m t (st, w) r = Inr (st', w')"
  shows "map rsp_operation (newStagingResponses st') =
         map rsp_operation (newStagingResponses st) @
           (if req_operation r \<noteq> OtherOperation then [req_operation r] else [])"
  using assms
proof (cases rule: stageRequest_Inr_cases)
  case Create
  with assms show ?thesis by (auto simp: stageRequest_Create Let_def)
next
  case Update
  with assms show ?thesis by (auto simp: stageRequest_Update Let_def)
next
  case (Delete v)
  with assms show ?thesis by (auto simp: stageRequest_Delete)
next
  case (Read v)
  with assms show ?thesis by (auto simp: stageRequest_Read)
next
  case Other
  with assms show ?thesis by (auto simp: stageRequest_Other)
qed

lemma staging_response_operations:
  assumes "generateStagingRequests e requests m t w = Inr (st, w')"
  shows "map rsp_operation (newStagingResponses st) =
         map req_operation (filter (\<lambda>r. req_operation r \<noteq> OtherOperation) requests)"
proof -
  have "map rsp_operation (newStagingResponses st) =
        concat (map (\<lambda>r. if req_operation r \<noteq> OtherOperation then [req_operation r] else []) requests)"
    using assms
    by (rule staging_contributions [where proj = "\<lambda>st. map rsp_operation (newStagingResponses st)"])
       (simp_all add: step_response_operations emptyStaging_def)
  then show ?thesis by (simp add: concat_map_if)
qed

text \<open>
  Claim C1, as amended. For every batch of create, update, delete and read operations in
  which every delete and read names an identifier of the version mapping,
  \<^verbatim>\<open>generateStagingRequests\<close> returns, its response list is as long as the batch, and the
  response at each position has the operation kind of the operation at that position.
\<close>

theorem staging_preserves_order_and_kinds:
  assumes kinds: "\<forall>r\<in>set requests. req_operation r \<in> {Create, Update, Delete, Read}"
    and known: "\<forall>r\<in>set requests. req_operation r = Delete \<or> req_operation r = Read
                  \<longrightarrow> idToVersionId (req_id r) \<noteq> None"
  shows "\<exists>st w'. generateStagingRequests e requests idToVersionId tenantId w = Inr (st, w')
           \<and> length (newStagingResponses st) = length requests
           \<and> (\<forall>i<length requests.
                 rsp_operation (newStagingResponses st ! i) = req_operation (requests ! i))"
proof -
  from known obtain st w'
    where run: "generateStagingRequests e requests idToVersionId tenantId w = Inr (st, w')"
    using staging_returns by blast
  have "filter (\<lambda>r. req_operation r \<noteq> OtherOperation) requests = requests"
    using kinds by (auto simp: filter_id_conv)
  with staging_response_operations [OF run]
  have ops: "map rsp_operation (newStagingResponses st) = map req_operation requests" by simp
  then have len: "length (newStagingResponses st) = length requests"
    by (rule map_eq_imp_length_eq)
  have "rsp_operation (newStagingResponses st ! i) = req_operation (requests ! i)"
    if "i < length requests" for i
    using that ops len by (metis nth_map)
  with run len show ?thesis by blast
qed

text \<open>
  Claim C1 as stated fails: on the batch of one delete of \<^verbatim>\<open>p2\<close> with an empty version
  mapping the call throws and returns no response list.
\<close>

theorem staging_unknown_delete_counterexample:
  "req_operation deleteRequest \<in> {Create, Update, Delete, Read} \<and>
   generateStagingRequests exampleEnv [deleteRequest] Map.empty None startWorld = Inl TypeError"
  by (simp add: deleteRequest_def generateStagingRequests_def stageRequest_def Let_def
        readProperty_def objectPrototype_def)

text \<open>The amended claim C1 on a batch of one operation of each kind.\<close>

theorem staging_preserves_order_and_kinds_witness:
  "list_all (\<lambda>r. req_operation r \<in> {Create, Update, Delete, Read}) exampleBatch \<and>
   list_all (\<lambda>r. req_operation r = Delete \<or> req_operation r = Read
                \<longrightarrow> exampleVersions (req_id r) \<noteq> None) exampleBatch \<and>
   (\<exists>st w'. generateStagingRequests exampleEnv exampleBatch exampleVersions None startWorld = Inr (st, w')
      \<and> length (newStagingResponses st) = length exampleBatch
      \<and> (\<forall>i<length exampleBatch.
            rsp_operation (newStagingResponses st ! i) = req_operation (exampleBatch ! i)))"
proof -
  have kinds: "\<forall>r\<in>set exampleBatch. req_operation r \<in> {Create, Update, Delete, Read}"
    by (simp add: exampleBatch_def createRequest_def updateRequest_def deleteRequest_def
          readRequest_def)
  have known: "\<forall>r\<in>set exampleBatch. req_operation r = Delete \<or> req_operation r = Read
                 \<longrightarrow> exampleVersions (req_id r) \<noteq> None"
    by (simp add: exampleBatch_def createRequest_def updateRequest_def deleteRequest_def
          readRequest_def exampleVersions_def)
  from kinds known staging_preserves_order_and_kinds [OF kinds known, of exampleEnv None startWorld]
  show ?thesis by (simp add: list_all_iff)
qed

subsection \<open>The staging generator: identifiers without a known version\<close>

text \<open>
  Claim C6, as amended. When a delete or read operation of the batch names an identifier
  that has no entry in the version mapping and is not the name of a member inherited
  from \<^verbatim>\<open>Object.prototype\<close>, so that \<^verbatim>\<open>idToVersionId[id]\<close> is \<^verbatim>\<open>undefined\<close>,
  \<^verbatim>\<open>generateStagingRequests\<close> fails with a \<^verbatim>\<open>TypeError\<close>: the call returns no request (none
  that carries an undefined version, and no other), no lock descriptor and no response.
\<close>

theorem staging_unknown_version_throws:
  assumes "r \<in> set requests"
    and "req_operation r = Delete \<or> req_operation r = Read"
    and "idToVersionId (req_id r) = None"
    and "objectPrototype (req_id r) = None"
  shows "generateStagingRequests e requests idToVersionId tenantId w = Inl TypeError"
  unfolding generateStagingRequests_def
proof (rule forEach_fails [OF assms(1)])
  fix s
  show "stageRequest e idToVersionId tenantId s r = Inl TypeError"
    using assms(2,3,4) by (rule stageRequest_unknown_version)
next
  fix s y err'
  assume "stageRequest e idToVersionId tenantId s y = Inl err'"
  then show "err' = TypeError" using stageRequest_error by blast
qed

text \<open>
  Claim C6 as stated fails: the read of \<^verbatim>\<open>p3\<close>, which the mapping \<^verbatim>\<open>{p1: 2}\<close> does not have,
  does not come back as a request with an undefined version; the call throws.
\<close>

theorem staging_unknown_read_counterexample:
  "req_operation readRequest = Read \<and> [''p1'' \<mapsto> 2::int] (req_id readRequest) = None \<and>
   generateStagingRequests exampleEnv [readRequest] [''p1'' \<mapsto> 2::int] None startWorld = Inl TypeError"
  by (simp add: readRequest_def generateStagingRequests_def stageRequest_def Let_def
        readProperty_def objectPrototype_def)

text \<open>
  The amended claim C6 on a batch whose second operation deletes \<^verbatim>\<open>p2\<close>, under the mapping
  \<^verbatim>\<open>{p1: 2}\<close>.
\<close>

theorem staging_unknown_version_throws_witness:
  "deleteRequest \<in> set [createRequest, deleteRequest] \<and>
   (req_operation deleteRequest = Delete \<or> req_operation deleteRequest = Read) \<and>
   [''p1'' \<mapsto> 2::int] (req_id deleteRequest) = None \<and>
   objectPrototype (req_id deleteRequest) = None \<and>
   generateStagingRequests exampleEnv [createRequest, deleteRequest] [''p1'' \<mapsto> 2::int] None startWorld
     = Inl TypeError"
proof -
  have 1: "deleteRequest \<in> set [createRequest, deleteRequest]" by simp
  have 2: "req_operation deleteRequest = Delete \<or> req_operation deleteRequest = Read"
    by (simp add: deleteRequest_def)
  have 3: "[''p1'' \<mapsto> 2::int] (req_id deleteRequest) = None"
    by (simp add: deleteRequest_def)
  have 4: "objectPrototype (req_id deleteRequest) = None"
    by (simp add: deleteRequest_def objectPrototype_def)
  from 1 2 3 4
    staging_unknown_version_throws
      [where r = deleteRequest and requests = "[createRequest, deleteRequest]"
         and idToVersionId = "[''p1'' \<mapsto> 2]" and e = exampleEnv and tenantId = None
         and w = startWorld]
  show ?thesis by simp
qed

subsection \<open>The staging generator: lock descriptors\<close>

lemma step_locks:
  assumes "stageRequest e m t (st, w) r = Inr (st', w')"
  shows "map (\<lambda>l. (lock_operation l, lock_isOriginalUpdateItem l)) (newLocks st') =
         map (\<lambda>l. (lock_operation l, lock_isOriginalUpdateItem l)) (newLocks st) @
           (if req_operation r = Create \<or> req_operation r = Update
            then [(req_operation r, if req_operation r = Update then Some False else None)]
            else [])"
  using assms
proof (cases rule: stageRequest_Inr_cases)
  case Create
  with assms show ?thesis by (auto simp: stageRequest_Create Let_def)
next
  case Update
  with assms show ?thesis by (auto simp: stageRequest_Update Let_def)
next
  case (Delete v)
  with assms show ?thesis by (auto simp: stageRequest_Delete)
next
  case (Read v)
  with assms show ?thesis by (auto simp: stageRequest_Read)
next
  case Other
  with assms show ?thesis by (auto simp: stageRequest_Other)
qed

lemma staging_locks:
  assumes "generateStagingRequests e requests m t w = Inr (st, w')"
  shows "map (\<lambda>l. (lock_operation l, lock_isOriginalUpdateItem l)) (newLocks st) =
         map (\<lambda>r. (req_operation r, if req_operation r = Update then Some False else None))
           (filter (\<lambda>r. req_operation r = Create \<or> req_operation r = Update) requests)"
proof -
  have "map (\<lambda>l. (lock_operation l, lock_isOriginalUpdateItem l)) (newLocks st) =
        concat (map (\<lambda>r. if req_operation r = Create \<or> req_operation r = Update
            then [(req_operation r, if req_operation r = Update then Some False else None)]
            else []) requests)"
    using assms
    by (rule staging_contributions
          [where proj = "\<lambda>st. map (\<lambda>l. (lock_operation l, lock_isOriginalUpdateItem l)) (newLocks st)"])
       (simp_all add: step_locks emptyStaging_def)
  then show ?thesis by (simp add: concat_map_if)
qed

text \<open>
  Claim C4, as amended. For every batch in which every delete and read names an identifier
  of the version mapping, \<^verbatim>\<open>generateStagingRequests\<close> returns, and the lock descriptors
  are, in order, one per create or update operation and none for any other operation; the
  descriptor of an update has \<^verbatim>\<open>isOriginalUpdateItem = false\<close> and the descriptor of a
  create does not have the property.
\<close>

theorem staging_lock_descriptors:
  assumes "\<forall>r\<in>set requests. req_operation r = Delete \<or> req_operation r = Read
             \<longrightarrow> idToVersionId (req_id r) \<noteq> None"
  shows "\<exists>st w'. generateStagingRequests e requests idToVersionId tenantId w = Inr (st, w')
           \<and> map lock_operation (newLocks st) =
               map req_operation
                 (filter (\<lambda>r. req_operation r = Create \<or> req_operation r = Update) requests)
           \<and> (\<forall>l\<in>set (newLocks st).
                 (lock_operation l = Update \<longrightarrow> lock_isOriginalUpdateItem l = Some False) \<and>
                 (lock_operation l = Create \<longrightarrow> lock_isOriginalUpdateItem l = None))"
proof -
  from assms obtain st w'
    where run: "generateStagingRequests e requests idToVersionId tenantId w = Inr (st, w')"
    using staging_returns by blast
  let ?cu = "filter (\<lambda>r. req_operation r = Create \<or> req_operation r = Update) requests"
  have pairs: "map (\<lambda>l. (lock_operation l, lock_isOriginalUpdateItem l)) (newLocks st) =
      map (\<lambda>r. (req_operation r, if req_operation r = Update then Some False else None)) ?cu"
    using run by (rule staging_locks)
  have "map fst (map (\<lambda>l. (lock_operation l, lock_isOriginalUpdateItem l)) (newLocks st)) =
      map fst (map (\<lambda>r. (req_operation r, if req_operation r = Update then Some False else None)) ?cu)"
    using pairs by simp
  then have ops: "map lock_operation (newLocks st) = map req_operation ?cu"
    by (simp add: comp_def)
  have flags: "(lock_operation l = Update \<longrightarrow> lock_isOriginalUpdateItem l = Some False) \<and>
               (lock_operation l = Create \<longrightarrow> lock_isOriginalUpdateItem l = None)"
    if "l \<in> set (newLocks st)" for l
  proof -
    from that have "(lock_operation l, lock_isOriginalUpdateItem l)
        \<in> set (map (\<lambda>l. (lock_operation l, lock_isOriginalUpdateItem l)) (newLocks st))"
      by force
    then have "(lock_operation l, lock_isOriginalUpdateItem l)
        \<in> set (map (\<lambda>r. (req_operation r, if req_operation r = Update then Some False else None)) ?cu)"
      using pairs by simp
    then show ?thesis by auto
  qed
  from run ops flags show ?thesis by blast
qed

text \<open>
  Claim C4 as stated fails: on the batch of a create and the delete of \<^verbatim>\<open>p2\<close> with an empty
  version mapping the call throws, and no lock descriptor is produced for the create.
\<close>

theorem staging_lock_descriptors_counterexample:
  "req_operation createRequest = Create \<and>
   generateStagingRequests exampleEnv [createRequest, deleteRequest] Map.empty None startWorld
     = Inl TypeError"
  by (simp add: createRequest_def deleteRequest_def generateStagingRequests_def stageRequest_def
        Let_def uuidv4_def prepItemForDdbInsert_def newDateISO_def
        addStagingResponseAndItemsLocked_def readProperty_def objectPrototype_def)

lemma example_run:
  "generateStagingRequests exampleEnv exampleBatch exampleVersions None startWorld =
     Inr (exampleStaging, \<lparr>uuid_calls = 1, clock_reads = 3\<rparr>)"
  by code_simp

lemma example_versions_known:
  "\<forall>r\<in>set exampleBatch. req_operation r = Delete \<or> req_operation r = Read
     \<longrightarrow> exampleVersions (req_id r) \<noteq> None"
  by (simp add: exampleBatch_def createRequest_def updateRequest_def deleteRequest_def
        readRequest_def exampleVersions_def)

text \<open>The amended claim C4 on a batch of one operation of each kind.\<close>

theorem staging_lock_descriptors_witness:
  "list_all (\<lambda>r. req_operation r = Delete \<or> req_operation r = Read
                \<longrightarrow> exampleVersions (req_id r) \<noteq> None) exampleBatch \<and>
   generateStagingRequests exampleEnv exampleBatch exampleVersions None startWorld
     = Inr (exampleStaging, \<lparr>uuid_calls = 1, clock_reads = 3\<rparr>) \<and>
   map lock_operation (newLocks exampleStaging) = [Create, Update] \<and>
   map lock_isOriginalUpdateItem (newLocks exampleStaging) = [None, Some False]"
proof -
  from staging_lock_descriptors [OF example_versions_known, of exampleEnv None startWorld]
  have "map lock_operation (newLocks exampleStaging) =
          map req_operation
            (filter (\<lambda>r. req_operation r = Create \<or> req_operation r = Update) exampleBatch)
        \<and> (\<forall>l\<in>set (newLocks exampleStaging).
              (lock_operation l = Update \<longrightarrow> lock_isOriginalUpdateItem l = Some False) \<and>
              (lock_operation l = Create \<longrightarrow> lock_isOriginalUpdateItem l = None))"
    by (simp add: example_run)
  then show ?thesis
    using example_versions_known
    by (simp add: example_run list_all_iff exampleStaging_def)
qed

subsection \<open>The staging generator: version assignment\<close>

lemma staging_filtered_contributions:
  assumes run: "generateStagingRequests e requests m t w = Inr (st, w')"
    and step: "\<And>st w r st' w'. r \<in> set requests \<Longrightarrow> stageRequest e m t (st, w) r = Inr (st', w')
                 \<Longrightarrow> proj st' = proj st @ (if P r then [g r] else [])"
    and init: "proj emptyStaging = []"
  shows "proj st = map g (filter P requests)"
proof -
  have "proj st = concat (map (\<lambda>r. if P r then [g r] else []) requests)"
    using run step init by (rule staging_contributions)
  then show ?thesis by (simp only: concat_map_if)
qed

lemma step_versions:
  assumes "stageRequest e m t (st, w) r = Inr (st', w')"
  shows "map (\<lambda>p. item_vid (put_Item p)) (createRequests st') =
           map (\<lambda>p. item_vid (put_Item p)) (createRequests st) @
             (if req_operation r = Create then [Number 1] else [])
       \<and> map lock_vid (filter (\<lambda>l. lock_operation l = Create) (newLocks st')) =
           map lock_vid (filter (\<lambda>l. lock_operation l = Create) (newLocks st)) @
             (if req_operation r = Create then [Num 1] else [])
       \<and> map rsp_vid (filter (\<lambda>x. rsp_operation x = Create) (newStagingResponses st')) =
           map rsp_vid (filter (\<lambda>x. rsp_operation x = Create) (newStagingResponses st)) @
             (if req_operation r = Create then [''1''] else [])
       \<and> map (\<lambda>p. (item_id (put_Item p), item_vid (put_Item p))) (updateRequests st') =
           map (\<lambda>p. (item_id (put_Item p), item_vid (put_Item p))) (updateRequests st) @
             (if req_operation r = Update
              then [(res_id (req_resource r),
                     case m (res_id (req_resource r)) of
                        Some V \<Rightarrow> Number (V + 1)
                      | None \<Rightarrow>
                          (case objectPrototype (res_id (req_resource r)) of
                             None \<Rightarrow> Number 1 | Some s \<Rightarrow> Text (s @ ''1'')))]
              else [])
       \<and> map (\<lambda>l. (lock_id l, lock_vid l)) (filter (\<lambda>l. lock_operation l = Update) (newLocks st')) =
           map (\<lambda>l. (lock_id l, lock_vid l)) (filter (\<lambda>l. lock_operation l = Update) (newLocks st)) @
             (if req_operation r = Update
              then [(res_id (req_resource r),
                     (case m (res_id (req_resource r)) of
                        Some V \<Rightarrow> Num (V + 1)
                      | None \<Rightarrow>
                          (case objectPrototype (res_id (req_resource r)) of
                             None \<Rightarrow> Num 1 | Some s \<Rightarrow> NaN)))]
              else [])
       \<and> map (\<lambda>x. (rsp_id x, rsp_vid x))
             (filter (\<lambda>x. rsp_operation x = Update) (newStagingResponses st')) =
           map (\<lambda>x. (rsp_id x, rsp_vid x))
             (filter (\<lambda>x. rsp_operation x = Update) (newStagingResponses st)) @
             (if req_operation r = Update
              then [(res_id (req_resource r),
                     (case m (res_id (req_resource r)) of
                        Some V \<Rightarrow> toString (V + 1)
                      | None \<Rightarrow>
                          (case objectPrototype (res_id (req_resource r)) of
                             None \<Rightarrow> ''1'' | Some s \<Rightarrow> s @ ''1'')))]
              else [])"
  using assms
proof (cases rule: stageRequest_Inr_cases)
  case Create
  with assms show ?thesis
    by (auto simp: stageRequest_Create Let_def parseInt_one toString_one)
next
  case Update
  with assms show ?thesis
    by (cases "m (res_id (req_resource r))"; cases "objectPrototype (res_id (req_resource r))")
       (auto simp: stageRequest_Update Let_def parseInt_toString parseInt_one toString_one
                   parseInt_inherited)
next
  case (Delete v)
  with assms show ?thesis by (auto simp: stageRequest_Delete)
next
  case (Read v)
  with assms show ?thesis by (auto simp: stageRequest_Read)
next
  case Other
  with assms show ?thesis by (auto simp: stageRequest_Other)
qed

lemma staging_versions_of_batch:
  assumes run: "generateStagingRequests e requests idToVersionId tenantId w = Inr (st, w')"
  shows "map (\<lambda>p. item_vid (put_Item p)) (createRequests st) =
           map (\<lambda>r. Number 1) (filter (\<lambda>r. req_operation r = Create) requests)
       \<and> map lock_vid (filter (\<lambda>l. lock_operation l = Create) (newLocks st)) =
           map (\<lambda>r. Num 1) (filter (\<lambda>r. req_operation r = Create) requests)
       \<and> map rsp_vid (filter (\<lambda>x. rsp_operation x = Create) (newStagingResponses st)) =
           map (\<lambda>r. ''1'') (filter (\<lambda>r. req_operation r = Create) requests)
       \<and> map (\<lambda>p. (item_id (put_Item p), item_vid (put_Item p))) (updateRequests st) =
           map (\<lambda>r. (res_id (req_resource r),
                      case idToVersionId (res_id (req_resource r)) of
                        Some V \<Rightarrow> Number (V + 1)
                      | None \<Rightarrow>
                          (case objectPrototype (res_id (req_resource r)) of
                             None \<Rightarrow> Number 1 | Some s \<Rightarrow> Text (s @ ''1''))))
             (filter (\<lambda>r. req_operation r = Update) requests)
       \<and> map (\<lambda>l. (lock_id l, lock_vid l)) (filter (\<lambda>l. lock_operation l = Update) (newLocks st)) =
           map (\<lambda>r. (res_id (req_resource r),
                      (case idToVersionId (res_id (req_resource r)) of
                        Some V \<Rightarrow> Num (V + 1)
                      | None \<Rightarrow>
                          (case objectPrototype (res_id (req_resource r)) of
                             None \<Rightarrow> Num 1 | Some s \<Rightarrow> NaN))))
             (filter (\<lambda>r. req_operation r = Update) requests)
       \<and> map (\<lambda>x. (rsp_id x, rsp_vid x))
             (filter (\<lambda>x. rsp_operation x = Update) (newStagingResponses st)) =
           map (\<lambda>r. (res_id (req_resource r),
                      (case idToVersionId (res_id (req_resource r)) of
                        Some V \<Rightarrow> toString (V + 1)
                      | None \<Rightarrow>
                          (case objectPrototype (res_id (req_resource r)) of
                             None \<Rightarrow> ''1'' | Some s \<Rightarrow> s @ ''1''))))
             (filter (\<lambda>r. req_operation r = Update) requests)"
proof -
  have 1: "map (\<lambda>p. item_vid (put_Item p)) (createRequests st) =
        map (\<lambda>r. Number 1) (filter (\<lambda>r. req_operation r = Create) requests)"
    using run
  proof (rule staging_filtered_contributions)
    fix st w r st' w'
    assume "stageRequest e idToVersionId tenantId (st, w) r = Inr (st', w')"
    from step_versions [OF this]
    show "map (\<lambda>p. item_vid (put_Item p)) (createRequests st') =
          map (\<lambda>p. item_vid (put_Item p)) (createRequests st) @
            (if req_operation r = Create then [Number 1] else [])"
      by blast
  qed (simp add: emptyStaging_def)
  have 2: "map lock_vid (filter (\<lambda>l. lock_operation l = Create) (newLocks st)) =
        map (\<lambda>r. Num 1) (filter (\<lambda>r. req_operation r = Create) requests)"
    using run
  proof (rule staging_filtered_contributions)
    fix st w r st' w'
    assume "stageRequest e idToVersionId tenantId (st, w) r = Inr (st', w')"
    from step_versions [OF this]
    show "map lock_vid (filter (\<lambda>l. lock_operation l = Create) (newLocks st')) =
          map lock_vid (filter (\<lambda>l. lock_operation l = Create) (newLocks st)) @
            (if req_operation r = Create then [Num 1] else [])"
      by blast
  qed (simp add: emptyStaging_def)
  have 3: "map rsp_vid (filter (\<lambda>x. rsp_operation x = Create) (newStagingResponses st)) =
        map (\<lambda>r. ''1'') (filter (\<lambda>r. req_operation r = Create) requests)"
    using run
  proof (rule staging_filtered_contributions)
    fix st w r st' w'
    assume "stageRequest e idToVersionId tenantId (st, w) r = Inr (st', w')"
    from step_versions [OF this]
    show "map rsp_vid (filter (\<lambda>x. rsp_operation x = Create) (newStagingResponses st')) =
          map rsp_vid (filter (\<lambda>x. rsp_operation x = Create) (newStagingResponses st)) @
            (if req_operation r = Create then [''1''] else [])"
      by blast
  qed (simp add: emptyStaging_def)
  have 4: "map (\<lambda>p. (item_id (put_Item p), item_vid (put_Item p))) (updateRequests st) =
        map (\<lambda>r. (res_id (req_resource r),
                   case idToVersionId (res_id (req_resource r)) of
                        Some V \<Rightarrow> Number (V + 1)
                      | None \<Rightarrow>
                          (case objectPrototype (res_id (req_resource r)) of
                             None \<Rightarrow> Number 1 | Some s \<Rightarrow> Text (s @ ''1''))))
          (filter (\<lambda>r. req_operation r = Update) requests)"
    using run
  proof (rule staging_filtered_contributions)
    fix st w r st' w'
    assume "stageRequest e idToVersionId tenantId (st, w) r = Inr (st', w')"
    from step_versions [OF this]
    show "map (\<lambda>p. (item_id (put_Item p), item_vid (put_Item p))) (updateRequests st') =
          map (\<lambda>p. (item_id (put_Item p), item_vid (put_Item p))) (updateRequests st) @
            (if req_operation r = Update
             then [(res_id (req_resource r),
                    case idToVersionId (res_id (req_resource r)) of
                        Some V \<Rightarrow> Number (V + 1)
                      | None \<Rightarrow>
                          (case objectPrototype (res_id (req_resource r)) of
                             None \<Rightarrow> Number 1 | Some s \<Rightarrow> Text (s @ ''1'')))]
             else [])"
      by blast
  qed (simp add: emptyStaging_def)
  have 5: "map (\<lambda>l. (lock_id l, lock_vid l)) (filter (\<lambda>l. lock_operation l = Update) (newLocks st)) =
        map (\<lambda>r. (res_id (req_resource r),
                   (case idToVersionId (res_id (req_resource r)) of
                        Some V \<Rightarrow> Num (V + 1)
                      | None \<Rightarrow>
                          (case objectPrototype (res_id (req_resource r)) of
                             None \<Rightarrow> Num 1 | Some s \<Rightarrow> NaN))))
          (filter (\<lambda>r. req_operation r = Update) requests)"
    using run
  proof (rule staging_filtered_contributions)
    fix st w r st' w'
    assume "stageRequest e idToVersionId tenantId (st, w) r = Inr (st', w')"
    from step_versions [OF this]
    show "map (\<lambda>l. (lock_id l, lock_vid l)) (filter (\<lambda>l. lock_operation l = Update) (newLocks st')) =
          map (\<lambda>l. (lock_id l, lock_vid l)) (filter (\<lambda>l. lock_operation l = Update) (newLocks st)) @
            (if req_operation r = Update
             then [(res_id (req_resource r),
                    (case idToVersionId (res_id (req_resource r)) of
                        Some V \<Rightarrow> Num (V + 1)
                      | None \<Rightarrow>
                          (case objectPrototype (res_id (req_resource r)) of
                             None \<Rightarrow> Num 1 | Some s \<Rightarrow> NaN)))]
             else [])"
      by blast
  qed (simp add: emptyStaging_def)
  have 6: "map (\<lambda>x. (rsp_id x, rsp_vid x))
          (filter (\<lambda>x. rsp_operation x = Update) (newStagingResponses st)) =
        map (\<lambda>r. (res_id (req_resource r),
                   (case idToVersionId (res_id (req_resource r)) of
                        Some V \<Rightarrow> toString (V + 1)
                      | None \<Rightarrow>
                          (case objectPrototype (res_id (req_resource r)) of
                             None \<Rightarrow> ''1'' | Some s \<Rightarrow> s @ ''1''))))
          (filter (\<lambda>r. req_operation r = Update) requests)"
    using run
  proof (rule staging_filtered_contributions)
    fix st w r st' w'
    assume "stageRequest e idToVersionId tenantId (st, w) r = Inr (st', w')"
    from step_versions [OF this]
    show "map (\<lambda>x. (rsp_id x, rsp_vid x))
            (filter (\<lambda>x. rsp_operation x = Update) (newStagingResponses st')) =
          map (\<lambda>x. (rsp_id x, rsp_vid x))
            (filter (\<lambda>x. rsp_operation x = Update) (newStagingResponses st)) @
            (if req_operation r = Update
             then [(res_id (req_resource r),
                    (case idToVersionId (res_id (req_resource r)) of
                        Some V \<Rightarrow> toString (V + 1)
                      | None \<Rightarrow>
                          (case objectPrototype (res_id (req_resource r)) of
                             None \<Rightarrow> ''1'' | Some s \<Rightarrow> s @ ''1'')))]
             else [])"
      by blast
  qed (simp add: emptyStaging_def)
  from 1 2 3 4 5 6 show ?thesis by blast
qed


text \<open>
  Claim C3. The loop body of \<^verbatim>\<open>generateStagingRequests\<close> returns on every create operation
  and appends one staged document of version 1, one lock descriptor of version 1 and one
  response of version \<^verbatim>\<open>"1"\<close>; on every update operation whose identifier \<open>X\<close> the version
  mapping maps to \<open>V\<close> it returns and appends one staged document, one lock descriptor and
  one response of version \<open>V + 1\<close>. Accordingly, in the result of a call the staged
  documents, the lock descriptors and the responses of the create operations are, one per
  create operation of the batch, all of version 1, and those of the update operations
  are, one per update operation and in the order of the batch, of the update's identifier
  \<open>X\<close> and of version \<open>V + 1\<close> where the mapping has \<open>V\<close> for \<open>X\<close>. (Where it has no entry for
  \<open>X\<close> they are of version 1, unless \<open>X\<close> is the name of a member inherited from
  \<^verbatim>\<open>Object.prototype\<close>: then the staged version and the response's version are the member's
  string followed by \<^verbatim>\<open>1\<close>, and the lock descriptor's version is \<^verbatim>\<open>NaN\<close>.)
\<close>

theorem staging_versions:
  "(req_operation r = Create \<longrightarrow>
      (\<exists>st' w' p l x.
         stageRequest e idToVersionId tenantId (st, w) r = Inr (st', w')
         \<and> createRequests st' = createRequests st @ [p] \<and> item_vid (put_Item p) = Number 1
         \<and> newLocks st' = newLocks st @ [l] \<and> lock_operation l = Create \<and> lock_vid l = Num 1
         \<and> newStagingResponses st' = newStagingResponses st @ [x]
         \<and> rsp_operation x = Create \<and> rsp_vid x = ''1''))
   \<and> (req_operation r = Update \<and> idToVersionId (res_id (req_resource r)) = Some V \<longrightarrow>
      (\<exists>st' w' p l x.
         stageRequest e idToVersionId tenantId (st, w) r = Inr (st', w')
         \<and> updateRequests st' = updateRequests st @ [p]
         \<and> item_id (put_Item p) = res_id (req_resource r) \<and> item_vid (put_Item p) = Number (V + 1)
         \<and> newLocks st' = newLocks st @ [l] \<and> lock_operation l = Update
         \<and> lock_id l = res_id (req_resource r) \<and> lock_vid l = Num (V + 1)
         \<and> newStagingResponses st' = newStagingResponses st @ [x] \<and> rsp_operation x = Update
         \<and> rsp_id x = res_id (req_resource r) \<and> rsp_vid x = toString (V + 1)))
   \<and> (generateStagingRequests e requests idToVersionId tenantId w0 = Inr (out, w1) \<longrightarrow>
       map (\<lambda>p. item_vid (put_Item p)) (createRequests out) =
           map (\<lambda>q. Number 1) (filter (\<lambda>q. req_operation q = Create) requests)
       \<and> map lock_vid (filter (\<lambda>l. lock_operation l = Create) (newLocks out)) =
           map (\<lambda>q. Num 1) (filter (\<lambda>q. req_operation q = Create) requests)
       \<and> map rsp_vid (filter (\<lambda>x. rsp_operation x = Create) (newStagingResponses out)) =
           map (\<lambda>q. ''1'') (filter (\<lambda>q. req_operation q = Create) requests)
       \<and> map (\<lambda>p. (item_id (put_Item p), item_vid (put_Item p))) (updateRequests out) =
           map (\<lambda>q. (res_id (req_resource q),
                      case idToVersionId (res_id (req_resource q)) of
                        Some v \<Rightarrow> Number (v + 1)
                      | None \<Rightarrow>
                          (case objectPrototype (res_id (req_resource q)) of
                             None \<Rightarrow> Number 1 | Some s \<Rightarrow> Text (s @ ''1''))))
             (filter (\<lambda>q. req_operation q = Update) requests)
       \<and> map (\<lambda>l. (lock_id l, lock_vid l)) (filter (\<lambda>l. lock_operation l = Update) (newLocks out)) =
           map (\<lambda>q. (res_id (req_resource q),
                      (case idToVersionId (res_id (req_resource q)) of
                        Some v \<Rightarrow> Num (v + 1)
                      | None \<Rightarrow>
                          (case objectPrototype (res_id (req_resource q)) of
                             None \<Rightarrow> Num 1 | Some s \<Rightarrow> NaN))))
             (filter (\<lambda>q. req_operation q = Update) requests)
       \<and> map (\<lambda>x. (rsp_id x, rsp_vid x))
             (filter (\<lambda>x. rsp_operation x = Update) (newStagingResponses out)) =
           map (\<lambda>q. (res_id (req_resource q),
                      (case idToVersionId (res_id (req_resource q)) of
                        Some v \<Rightarrow> toString (v + 1)
                      | None \<Rightarrow>
                          (case objectPrototype (res_id (req_resource q)) of
                             None \<Rightarrow> ''1'' | Some s \<Rightarrow> s @ ''1''))))
             (filter (\<lambda>q. req_operation q = Update) requests))"
proof (intro conjI impI)
  assume "req_operation r = Create"
  then show "\<exists>st' w' p l x.
         stageRequest e idToVersionId tenantId (st, w) r = Inr (st', w')
         \<and> createRequests st' = createRequests st @ [p] \<and> item_vid (put_Item p) = Number 1
         \<and> newLocks st' = newLocks st @ [l] \<and> lock_operation l = Create \<and> lock_vid l = Num 1
         \<and> newStagingResponses st' = newStagingResponses st @ [x]
         \<and> rsp_operation x = Create \<and> rsp_vid x = ''1''"
    by (simp add: stageRequest_Create Let_def toString_one parseInt_one)
next
  assume "req_operation r = Update \<and> idToVersionId (res_id (req_resource r)) = Some V"
  then show "\<exists>st' w' p l x.
         stageRequest e idToVersionId tenantId (st, w) r = Inr (st', w')
         \<and> updateRequests st' = updateRequests st @ [p]
         \<and> item_id (put_Item p) = res_id (req_resource r) \<and> item_vid (put_Item p) = Number (V + 1)
         \<and> newLocks st' = newLocks st @ [l] \<and> lock_operation l = Update
         \<and> lock_id l = res_id (req_resource r) \<and> lock_vid l = Num (V + 1)
         \<and> newStagingResponses st' = newStagingResponses st @ [x] \<and> rsp_operation x = Update
         \<and> rsp_id x = res_id (req_resource r) \<and> rsp_vid x = toString (V + 1)"
    by (simp add: stageRequest_Update Let_def parseInt_toString)
qed (simp_all add: staging_versions_of_batch)

text \<open>
  Claim C3 on a batch of one operation of each kind, the update being of an identifier
  whose current version is 2.
\<close>

theorem staging_versions_witness:
  "generateStagingRequests exampleEnv exampleBatch exampleVersions None startWorld
     = Inr (exampleStaging, \<lparr>uuid_calls = 1, clock_reads = 3\<rparr>) \<and>
   exampleVersions ''p1'' = Some 2 \<and>
   map (\<lambda>p. item_vid (put_Item p)) (createRequests exampleStaging) = [Number 1] \<and>
   map lock_vid (filter (\<lambda>l. lock_operation l = Create) (newLocks exampleStaging)) = [Num 1] \<and>
   map rsp_vid (filter (\<lambda>x. rsp_operation x = Create) (newStagingResponses exampleStaging)) = [''1''] \<and>
   map (\<lambda>p. (item_id (put_Item p), item_vid (put_Item p))) (updateRequests exampleStaging)
     = [(''p1'', Number 3)] \<and>
   map (\<lambda>l. (lock_id l, lock_vid l)) (filter (\<lambda>l. lock_operation l = Update) (newLocks exampleStaging))
     = [(''p1'', Num 3)] \<and>
   map (\<lambda>x. (rsp_id x, rsp_vid x))
     (filter (\<lambda>x. rsp_operation x = Update) (newStagingResponses exampleStaging))
     = [(''p1'', ''3'')]"
proof -
  have three: "toString 3 = ''3''" by code_simp
  have batch: "filter (\<lambda>r. req_operation r = Create) exampleBatch = [createRequest]"
    "filter (\<lambda>r. req_operation r = Update) exampleBatch = [updateRequest]"
    by (simp_all add: exampleBatch_def createRequest_def updateRequest_def deleteRequest_def
          readRequest_def)
  have upd: "res_id (req_resource updateRequest) = ''p1''" "exampleVersions ''p1'' = Some 2"
    by (simp_all add: updateRequest_def patient_def exampleVersions_def)
  from staging_versions
    [where requests = exampleBatch and e = exampleEnv and idToVersionId = exampleVersions
       and tenantId = None and ?w0.0 = startWorld and out = exampleStaging
       and ?w1.0 = "\<lparr>uuid_calls = 1, clock_reads = 3\<rparr>",
     THEN conjunct2, THEN conjunct2, rule_format, OF example_run]
  show ?thesis
    by (simp add: batch upd three example_run)
qed

subsection \<open>The rollback generator\<close>

lemma rollbackResponse_step:
  "rollbackResponse t acc x =
     (if rsp_operation x = Create \<or> rsp_operation x = Update
      then acc\<lparr>transactionRequests := transactionRequests acc @
                   [buildDeleteParam (rsp_id x) (parseInt (rsp_vid x)) t],
                 itemsToRemoveFromLock := itemsToRemoveFromLock acc @
                   [\<lparr>rel_id = rsp_id x, rel_vid = rsp_vid x,
                     rel_resourceType = rsp_resourceType x\<rparr>]\<rparr>
      else acc)"
  by (cases "rsp_operation x")
     (simp_all add: rollbackResponse_def generateDeleteLatestRecordAndItemToRemoveFromLock_def)

lemma rollbackResponse_fold:
  "foldl (rollbackResponse t) acc rs =
     acc\<lparr>transactionRequests := transactionRequests acc @
            map (\<lambda>x. buildDeleteParam (rsp_id x) (parseInt (rsp_vid x)) t)
              (filter (\<lambda>x. rsp_operation x = Create \<or> rsp_operation x = Update) rs),
          itemsToRemoveFromLock := itemsToRemoveFromLock acc @
            map (\<lambda>x. \<lparr>rel_id = rsp_id x, rel_vid = rsp_vid x,
                        rel_resourceType = rsp_resourceType x\<rparr>)
              (filter (\<lambda>x. rsp_operation x = Create \<or> rsp_operation x = Update) rs)\<rparr>"
proof (induction rs arbitrary: acc)
  case Nil
  show ?case by simp
next
  case (Cons x rs)
  let ?deletes = "\<lambda>rs. map (\<lambda>x. buildDeleteParam (rsp_id x) (parseInt (rsp_vid x)) t)
      (filter (\<lambda>x. rsp_operation x = Create \<or> rsp_operation x = Update) rs)"
  let ?releases = "\<lambda>rs. map (\<lambda>x. \<lparr>rel_id = rsp_id x, rel_vid = rsp_vid x,
        rel_resourceType = rsp_resourceType x\<rparr>)
      (filter (\<lambda>x. rsp_operation x = Create \<or> rsp_operation x = Update) rs)"
  define acc' where "acc' = rollbackResponse t acc x"
  have "foldl (rollbackResponse t) acc (x # rs) = foldl (rollbackResponse t) acc' rs"
    by (simp add: acc'_def)
  also have "\<dots> = acc'\<lparr>transactionRequests := transactionRequests acc' @ ?deletes rs,
                         itemsToRemoveFromLock := itemsToRemoveFromLock acc' @ ?releases rs\<rparr>"
    by (rule Cons.IH)
  also have "\<dots> = acc\<lparr>transactionRequests := transactionRequests acc @ ?deletes (x # rs),
                        itemsToRemoveFromLock := itemsToRemoveFromLock acc @ ?releases (x # rs)\<rparr>"
    unfolding acc'_def by (simp add: rollbackResponse_step)
  finally show ?case .
qed



subsection \<open>Rollback releases the locks of staging\<close>

text \<open>
  A lock descriptor holds its version as a number and a lock-release descriptor as a
  string; the two are compared after \<^verbatim>\<open>parseInt\<close> of the string. The descriptors agree as
  long as no update names an identifier that has no entry in the version mapping and is
  the name of an inherited member.
\<close>

lemma step_lock_triples:
  assumes step: "stageRequest e m t (st, w) r = Inr (st', w')"
    and numbered: "req_operation r = Update \<longrightarrow>
       m (res_id (req_resource r)) \<noteq> None \<or> objectPrototype (res_id (req_resource r)) = None"
    and inv: "map (\<lambda>l. (lock_id l, lock_vid l, lock_resourceType l)) (newLocks st) =
       map (\<lambda>x. (rsp_id x, parseInt (rsp_vid x), rsp_resourceType x))
         (filter (\<lambda>x. rsp_operation x = Create \<or> rsp_operation x = Update)
            (newStagingResponses st))
       \<and> NaN \<notin> lock_vid ` set (newLocks st)"
  shows "map (\<lambda>l. (lock_id l, lock_vid l, lock_resourceType l)) (newLocks st') =
       map (\<lambda>x. (rsp_id x, parseInt (rsp_vid x), rsp_resourceType x))
         (filter (\<lambda>x. rsp_operation x = Create \<or> rsp_operation x = Update)
            (newStagingResponses st'))
       \<and> NaN \<notin> lock_vid ` set (newLocks st')"
  using step
proof (cases rule: stageRequest_Inr_cases)
  case Create
  with step inv show ?thesis by (auto simp: stageRequest_Create Let_def parseInt_toString)
next
  case Update
  with numbered have "(\<exists>v. m (res_id (req_resource r)) = Some v)
      \<or> (m (res_id (req_resource r)) = None \<and> objectPrototype (res_id (req_resource r)) = None)"
    by auto
  with Update step inv show ?thesis
    by (auto simp: stageRequest_Update Let_def parseInt_toString)
next
  case (Delete s)
  with step inv show ?thesis by (auto simp: stageRequest_Delete)
next
  case (Read s)
  with step inv show ?thesis by (auto simp: stageRequest_Read)
next
  case Other
  with step inv show ?thesis by (auto simp: stageRequest_Other)
qed

lemma rollback_releases_locks_of_numbered_versions:
  assumes run: "generateStagingRequests e requests idToVersionId tenantId w = Inr (st, w')"
    and numbered: "\<forall>r\<in>set requests. req_operation r = Update \<longrightarrow>
       idToVersionId (res_id (req_resource r)) \<noteq> None
       \<or> objectPrototype (res_id (req_resource r)) = None"
  shows "map (\<lambda>q. (rel_id q, parseInt (rel_vid q), rel_resourceType q))
           (itemsToRemoveFromLock (generateRollbackRequests (newStagingResponses st) tenantId)) =
         map (\<lambda>l. (lock_id l, lock_vid l, lock_resourceType l)) (newLocks st)
       \<and> (\<lambda>q. (rel_id q, parseInt (rel_vid q), rel_resourceType q)) `
           set (itemsToRemoveFromLock (generateRollbackRequests (newStagingResponses st) tenantId)) =
         (\<lambda>l. (lock_id l, lock_vid l, lock_resourceType l)) ` set (newLocks st)
       \<and> NaN \<notin> lock_vid ` set (newLocks st)"
proof -
  let ?P = "\<lambda>st. map (\<lambda>l. (lock_id l, lock_vid l, lock_resourceType l)) (newLocks st) =
       map (\<lambda>x. (rsp_id x, parseInt (rsp_vid x), rsp_resourceType x))
         (filter (\<lambda>x. rsp_operation x = Create \<or> rsp_operation x = Update)
            (newStagingResponses st))
       \<and> NaN \<notin> lock_vid ` set (newLocks st)"
  have inv: "?P st"
    using run
  proof (rule staging_invariant [where P = ?P])
    show "?P emptyStaging" by (simp add: emptyStaging_def)
  next
    fix st w r st' w'
    assume mem: "r \<in> set requests" and hyp: "?P st"
      and step: "stageRequest e idToVersionId tenantId (st, w) r = Inr (st', w')"
    from numbered mem have "req_operation r = Update \<longrightarrow>
       idToVersionId (res_id (req_resource r)) \<noteq> None
       \<or> objectPrototype (res_id (req_resource r)) = None"
      by (rule bspec)
    with step show "?P st'" using hyp by (rule step_lock_triples)
  qed
  have lists: "map (\<lambda>q. (rel_id q, parseInt (rel_vid q), rel_resourceType q))
           (itemsToRemoveFromLock (generateRollbackRequests (newStagingResponses st) tenantId)) =
         map (\<lambda>l. (lock_id l, lock_vid l, lock_resourceType l)) (newLocks st)"
    using inv by (simp add: generateRollbackRequests_def rollbackResponse_fold comp_def)
  have "set (map (\<lambda>q. (rel_id q, parseInt (rel_vid q), rel_resourceType q))
           (itemsToRemoveFromLock (generateRollbackRequests (newStagingResponses st) tenantId))) =
        set (map (\<lambda>l. (lock_id l, lock_vid l, lock_resourceType l)) (newLocks st))"
    using lists by simp
  then have sets: "(\<lambda>q. (rel_id q, parseInt (rel_vid q), rel_resourceType q)) `
           set (itemsToRemoveFromLock (generateRollbackRequests (newStagingResponses st) tenantId)) =
         (\<lambda>l. (lock_id l, lock_vid l, lock_resourceType l)) ` set (newLocks st)"
    by (simp only: set_map)
  from lists sets inv show ?thesis by blast
qed

text \<open>
  The staging generator on the update of the resource \<^verbatim>\<open>constructor\<close> with an empty
  version mapping: \<^verbatim>\<open>idToVersionId[id]\<close> is the inherited function \<^verbatim>\<open>Object\<close>, which
  \<^verbatim>\<open>|| 0\<close> lets through, and \<^verbatim>\<open>+ 1\<close> makes a string of it.
\<close>

lemma constructor_run:
  "generateStagingRequests exampleEnv [constructorUpdate] Map.empty None startWorld =
     Inr (constructorStaging, \<lparr>uuid_calls = 0, clock_reads = 1\<rparr>)"
  by code_simp

text \<open>
  Claim C9 fails on the code. For the batch of the one update of the resource
  \<^verbatim>\<open>constructor\<close>, with an empty version mapping, \<^verbatim>\<open>generateStagingRequests\<close> returns one lock
  descriptor, whose version is \<^verbatim>\<open>NaN\<close>, and \<^verbatim>\<open>generateRollbackRequests\<close> computes from its
  response list one lock-release descriptor, whose version is the string
  \<^verbatim>\<open>function Object() { [native code] }1\<close>: the release does not have the version of the
  staged lock, and neither version is a number.
\<close>

theorem rollback_release_of_inherited_name:
  "generateStagingRequests exampleEnv [constructorUpdate] Map.empty None startWorld =
     Inr (constructorStaging, \<lparr>uuid_calls = 0, clock_reads = 1\<rparr>) \<and>
   map (\<lambda>l. (lock_id l, lock_vid l, lock_resourceType l)) (newLocks constructorStaging) =
     [(''constructor'', NaN, ''Patient'')] \<and>
   map (\<lambda>q. (rel_id q, rel_vid q, rel_resourceType q))
     (itemsToRemoveFromLock
        (generateRollbackRequests (newStagingResponses constructorStaging) None)) =
     [(''constructor'', ''function Object() { [native code] }1'', ''Patient'')]"
proof -
  have "map (\<lambda>q. (rel_id q, rel_vid q, rel_resourceType q))
     (itemsToRemoveFromLock
        (generateRollbackRequests (newStagingResponses constructorStaging) None)) =
     [(''constructor'', ''function Object() { [native code] }1'', ''Patient'')]"
    by (simp add: constructorStaging_def generateRollbackRequests_def rollbackResponse_def
          generateDeleteLatestRecordAndItemToRemoveFromLock_def patient_def)
  moreover have
    "map (\<lambda>l. (lock_id l, lock_vid l, lock_resourceType l)) (newLocks constructorStaging) =
       [(''constructor'', NaN, ''Patient'')]"
    by (simp add: constructorStaging_def)
  ultimately show ?thesis using constructor_run by simp
qed

subsection \<open>The staging generator: an update without a known version\<close>

lemma forEach_cong:
  assumes "\<And>s x. x \<in> set xs \<Longrightarrow> f s x = g s x"
  shows "forEach f xs s = forEach g xs s"
  using assms
proof (induction xs arbitrary: s)
  case Nil
  show ?case by simp
next
  case (Cons x xs)
  have head: "f s x = g s x" by (rule Cons.prems) simp
  have tail: "forEach f xs s' = forEach g xs s'" for s'
  proof (rule Cons.IH)
    fix s x'
    assume "x' \<in> set xs"
    then have "x' \<in> set (x # xs)" by simp
    then show "f s x' = g s x'" by (rule Cons.prems)
  qed
  show ?case by (simp add: head tail split: sum.split)
qed

lemma stageRequest_missing_as_zero:
  assumes absent: "m X = None" "objectPrototype X = None"
    and others: "req_operation r = Delete \<or> req_operation r = Read \<longrightarrow> req_id r \<noteq> X"
  shows "stageRequest e m t sw r = stageRequest e (m(X \<mapsto> 0)) t sw r"
proof (cases "req_operation r")
  case Create
  then show ?thesis by (simp add: stageRequest_def)
next
  case Update
  show ?thesis
  proof (cases "res_id (req_resource r) = X")
    case True
    with Update absent show ?thesis by (simp add: stageRequest_def)
  next
    case False
    with Update show ?thesis by (simp add: stageRequest_def readProperty_def)
  qed
next
  case Delete
  with others show ?thesis by (simp add: stageRequest_def readProperty_def)
next
  case Read
  with others show ?thesis by (simp add: stageRequest_def readProperty_def)
next
  case OtherOperation
  then show ?thesis by (simp add: stageRequest_def)
qed

text \<open>
  An update operation whose identifier \<open>X\<close> has no entry in the version mapping and is not
  the name of an inherited member is staged exactly as under the mapping extended with
  \<open>X \<mapsto> 0\<close>: in any state of the accumulators the loop body returns, and appends one put
  request whose document has identifier \<open>X\<close>, version 1 and status \<^verbatim>\<open>PENDING\<close>, one lock
  descriptor of version 1 with \<^verbatim>\<open>isOriginalUpdateItem = false\<close>, and one response of
  version \<^verbatim>\<open>"1"\<close>. A whole batch gives the same result under both mappings when no delete
  or read of the batch names \<open>X\<close>, and the batch of the update alone returns.
\<close>

lemma update_of_unknown_identifier:
  assumes upd: "req_operation r = Update"
    and absent: "idToVersionId (res_id (req_resource r)) = None"
      "objectPrototype (res_id (req_resource r)) = None"
  shows "stageRequest e idToVersionId tenantId (st, w) r =
           stageRequest e (idToVersionId(res_id (req_resource r) \<mapsto> 0)) tenantId (st, w) r
       \<and> (\<exists>st' w' p l x.
             stageRequest e idToVersionId tenantId (st, w) r = Inr (st', w')
             \<and> createRequests st' = createRequests st
             \<and> deleteRequests st' = deleteRequests st
             \<and> readRequests st' = readRequests st
             \<and> updateRequests st' = updateRequests st @ [p]
             \<and> put_TableName p = RESOURCE_TABLE e
             \<and> item_id (put_Item p) = res_id (req_resource r)
             \<and> item_vid (put_Item p) = Number 1
             \<and> item_documentStatus (put_Item p) = PENDING
             \<and> newLocks st' = newLocks st @ [l]
             \<and> lock_id l = res_id (req_resource r) \<and> lock_vid l = Num 1
             \<and> lock_operation l = Update \<and> lock_isOriginalUpdateItem l = Some False
             \<and> newStagingResponses st' = newStagingResponses st @ [x]
             \<and> rsp_id x = res_id (req_resource r) \<and> rsp_vid x = ''1''
             \<and> rsp_operation x = Update)
       \<and> ((\<forall>r'\<in>set requests. req_operation r' = Delete \<or> req_operation r' = Read
               \<longrightarrow> req_id r' \<noteq> res_id (req_resource r))
            \<longrightarrow> generateStagingRequests e requests idToVersionId tenantId w =
                generateStagingRequests e requests
                  (idToVersionId(res_id (req_resource r) \<mapsto> 0)) tenantId w)
       \<and> (\<exists>st' w'. generateStagingRequests e [r] idToVersionId tenantId w = Inr (st', w'))"
proof (intro conjI)
  show "stageRequest e idToVersionId tenantId (st, w) r =
        stageRequest e (idToVersionId(res_id (req_resource r) \<mapsto> 0)) tenantId (st, w) r"
    using absent upd by (intro stageRequest_missing_as_zero) simp_all
next
  show "\<exists>st' w' p l x.
             stageRequest e idToVersionId tenantId (st, w) r = Inr (st', w')
             \<and> createRequests st' = createRequests st
             \<and> deleteRequests st' = deleteRequests st
             \<and> readRequests st' = readRequests st
             \<and> updateRequests st' = updateRequests st @ [p]
             \<and> put_TableName p = RESOURCE_TABLE e
             \<and> item_id (put_Item p) = res_id (req_resource r)
             \<and> item_vid (put_Item p) = Number 1
             \<and> item_documentStatus (put_Item p) = PENDING
             \<and> newLocks st' = newLocks st @ [l]
             \<and> lock_id l = res_id (req_resource r) \<and> lock_vid l = Num 1
             \<and> lock_operation l = Update \<and> lock_isOriginalUpdateItem l = Some False
             \<and> newStagingResponses st' = newStagingResponses st @ [x]
             \<and> rsp_id x = res_id (req_resource r) \<and> rsp_vid x = ''1''
             \<and> rsp_operation x = Update"
    using upd absent
    by (simp add: stageRequest_Update Let_def toString_one parseInt_one)
next
  show "(\<forall>r'\<in>set requests. req_operation r' = Delete \<or> req_operation r' = Read
               \<longrightarrow> req_id r' \<noteq> res_id (req_resource r))
            \<longrightarrow> generateStagingRequests e requests idToVersionId tenantId w =
                generateStagingRequests e requests
                  (idToVersionId(res_id (req_resource r) \<mapsto> 0)) tenantId w"
  proof
    assume others: "\<forall>r'\<in>set requests. req_operation r' = Delete \<or> req_operation r' = Read
               \<longrightarrow> req_id r' \<noteq> res_id (req_resource r)"
    show "generateStagingRequests e requests idToVersionId tenantId w =
          generateStagingRequests e requests
            (idToVersionId(res_id (req_resource r) \<mapsto> 0)) tenantId w"
      unfolding generateStagingRequests_def
    proof (rule forEach_cong)
      fix s r'
      assume "r' \<in> set requests"
      with others have "req_operation r' = Delete \<or> req_operation r' = Read
          \<longrightarrow> req_id r' \<noteq> res_id (req_resource r)" by blast
      with absent show "stageRequest e idToVersionId tenantId s r' =
          stageRequest e (idToVersionId(res_id (req_resource r) \<mapsto> 0)) tenantId s r'"
        by (rule stageRequest_missing_as_zero)
    qed
  qed
next
  show "\<exists>st' w'. generateStagingRequests e [r] idToVersionId tenantId w = Inr (st', w')"
    using upd by (intro staging_returns) simp
qed

text \<open>
  Claim C10 fails on the code. The update of the resource \<^verbatim>\<open>constructor\<close>, an identifier
  absent from the empty version mapping, is not staged at version 1: the staged document
  and the response have the version \<^verbatim>\<open>function Object() { [native code] }1\<close> and the lock
  descriptor has the version \<^verbatim>\<open>NaN\<close>, whereas under the mapping \<^verbatim>\<open>{constructor: 0}\<close> the same
  update is staged at version 1.
\<close>

theorem update_of_inherited_name:
  "req_operation constructorUpdate = Update \<and>
   Map.empty (res_id (req_resource constructorUpdate)) = (None :: int option) \<and>
   generateStagingRequests exampleEnv [constructorUpdate] Map.empty None startWorld =
     Inr (constructorStaging, \<lparr>uuid_calls = 0, clock_reads = 1\<rparr>) \<and>
   map (\<lambda>p. item_vid (put_Item p)) (updateRequests constructorStaging) =
     [Text ''function Object() { [native code] }1''] \<and>
   map lock_vid (newLocks constructorStaging) = [NaN] \<and>
   map rsp_vid (newStagingResponses constructorStaging) =
     [''function Object() { [native code] }1''] \<and>
   map (\<lambda>p. item_vid (put_Item p))
     (updateRequests (fst (projr
        (generateStagingRequests exampleEnv [constructorUpdate] [''constructor'' \<mapsto> 0] None
           startWorld)))) = [Number 1]"
proof -
  have "map (\<lambda>p. item_vid (put_Item p))
     (updateRequests (fst (projr
        (generateStagingRequests exampleEnv [constructorUpdate] [''constructor'' \<mapsto> 0] None
           startWorld)))) = [Number 1]"
    by code_simp
  then show ?thesis
    using constructor_run by (simp add: constructorUpdate_def constructorStaging_def)
qed

subsection \<open>The staging generator: determinism\<close>

lemma step_deterministic:
  assumes ident: "req_operation r = Create \<longrightarrow> req_id r \<noteq> []"
    and clock: "clock_source e1 = clock_source e2"
    and table: "RESOURCE_TABLE e1 = RESOURCE_TABLE e2"
    and reads: "clock_reads w1 = clock_reads w2"
  shows "(\<exists>err. stageRequest e1 m t (st, w1) r = Inl err \<and> stageRequest e2 m t (st, w2) r = Inl err)
       \<or> (\<exists>st' w1' w2'. stageRequest e1 m t (st, w1) r = Inr (st', w1')
             \<and> stageRequest e2 m t (st, w2) r = Inr (st', w2')
             \<and> clock_reads w1' = clock_reads w2')"
proof (cases "req_operation r")
  case Create
  with ident clock table reads show ?thesis by (simp add: stageRequest_Create Let_def)
next
  case Update
  with clock table reads show ?thesis by (simp add: stageRequest_Update Let_def)
next
  case Delete
  show ?thesis
  proof (cases "propertyToString (readProperty m (req_id r))")
    case (Inl err)
    with Delete show ?thesis by (simp add: stageRequest_def)
  next
    case (Inr s)
    with Delete clock reads show ?thesis by (simp add: stageRequest_Delete)
  qed
next
  case Read
  show ?thesis
  proof (cases "propertyToString (readProperty m (req_id r))")
    case (Inl err)
    with Read show ?thesis by (simp add: stageRequest_def)
  next
    case (Inr s)
    with Read table reads show ?thesis by (simp add: stageRequest_Read)
  qed
next
  case OtherOperation
  with reads show ?thesis by (simp add: stageRequest_Other)
qed

lemma forEach_deterministic:
  assumes "\<forall>r\<in>set requests. req_operation r = Create \<longrightarrow> req_id r \<noteq> []"
    and clock: "clock_source e1 = clock_source e2"
    and table: "RESOURCE_TABLE e1 = RESOURCE_TABLE e2"
    and "clock_reads w1 = clock_reads w2"
  shows "map_sum id fst (forEach (stageRequest e1 m t) requests (st, w1)) =
         map_sum id fst (forEach (stageRequest e2 m t) requests (st, w2))"
  using assms(1,4)
proof (induction requests arbitrary: st w1 w2)
  case Nil
  show ?case by simp
next
  case (Cons r requests)
  from Cons.prems(1) have ident: "req_operation r = Create \<longrightarrow> req_id r \<noteq> []" by simp
  from Cons.prems(1) have rest: "\<forall>r\<in>set requests. req_operation r = Create \<longrightarrow> req_id r \<noteq> []"
    by simp
  from step_deterministic [OF ident clock table Cons.prems(2), of m t st]
  consider (throws) err where "stageRequest e1 m t (st, w1) r = Inl err"
      "stageRequest e2 m t (st, w2) r = Inl err"
    | (returns) st' w1' w2' where "stageRequest e1 m t (st, w1) r = Inr (st', w1')"
      "stageRequest e2 m t (st, w2) r = Inr (st', w2')" "clock_reads w1' = clock_reads w2'"
    by blast
  then show ?case
  proof cases
    case throws
    then show ?thesis by simp
  next
    case returns
    from Cons.IH [OF rest returns(3), of st'] returns(1,2) show ?thesis by simp
  qed
qed

text \<open>
  Claim C7, as amended. Two invocations of \<^verbatim>\<open>generateStagingRequests\<close> on the same batch in
  which every create has an identifier of its own, the same version mapping and the same
  tenant scope have the same outcome (the same exception, or the same six lists) when
  both read the same times from the wall clock; the identifiers that \<^verbatim>\<open>uuidv4\<close> draws do
  not matter.
\<close>

theorem staging_deterministic_under_one_clock:
  assumes "\<forall>r\<in>set requests. req_operation r = Create \<longrightarrow> req_id r \<noteq> []"
    and "clock_source e1 = clock_source e2"
    and "RESOURCE_TABLE e1 = RESOURCE_TABLE e2"
    and "clock_reads w1 = clock_reads w2"
  shows "map_sum id fst (generateStagingRequests e1 requests idToVersionId tenantId w1) =
         map_sum id fst (generateStagingRequests e2 requests idToVersionId tenantId w2)"
  unfolding generateStagingRequests_def using assms by (rule forEach_deterministic)

text \<open>
  Claim C7 as stated fails: the response of a delete takes its \<^verbatim>\<open>lastModified\<close> from the
  wall clock, so a second invocation with the same batch, mapping and tenant scope, made
  in the state the first one left, gives a different response list.
\<close>

theorem staging_determinism_counterexample:
  "snd (projr (generateStagingRequests exampleEnv [deleteRequest] exampleVersions None startWorld))
     = laterWorld \<and>
   map_sum id fst (generateStagingRequests exampleEnv [deleteRequest] exampleVersions None startWorld)
     \<noteq> map_sum id fst
         (generateStagingRequests exampleEnv [deleteRequest] exampleVersions None laterWorld)"
  by code_simp

text \<open>
  The amended claim C7 on the example batch, run in two environments whose identifier
  sources differ and from two states that differ in the number of identifiers drawn.
\<close>

theorem staging_deterministic_under_one_clock_witness:
  "list_all (\<lambda>r. req_operation r = Create \<longrightarrow> req_id r \<noteq> []) exampleBatch \<and>
   clock_source exampleEnv = clock_source (exampleEnv\<lparr>uuid_source := (\<lambda>n. ''other'')\<rparr>) \<and>
   RESOURCE_TABLE exampleEnv = RESOURCE_TABLE (exampleEnv\<lparr>uuid_source := (\<lambda>n. ''other'')\<rparr>) \<and>
   clock_reads startWorld = clock_reads (startWorld\<lparr>uuid_calls := 7\<rparr>) \<and>
   map_sum id fst (generateStagingRequests exampleEnv exampleBatch exampleVersions None startWorld) =
   map_sum id fst (generateStagingRequests (exampleEnv\<lparr>uuid_source := (\<lambda>n. ''other'')\<rparr>)
     exampleBatch exampleVersions None (startWorld\<lparr>uuid_calls := 7\<rparr>)) \<and>
   map_sum id fst (generateStagingRequests exampleEnv exampleBatch exampleVersions None startWorld) =
   Inr exampleStaging"
proof -
  have ids: "\<forall>r\<in>set exampleBatch. req_operation r = Create \<longrightarrow> req_id r \<noteq> []"
    by (simp add: exampleBatch_def createRequest_def updateRequest_def deleteRequest_def
          readRequest_def)
  have clock: "clock_source exampleEnv = clock_source (exampleEnv\<lparr>uuid_source := (\<lambda>n. ''other'')\<rparr>)"
    and table: "RESOURCE_TABLE exampleEnv = RESOURCE_TABLE (exampleEnv\<lparr>uuid_source := (\<lambda>n. ''other'')\<rparr>)"
    and reads: "clock_reads startWorld = clock_reads (startWorld\<lparr>uuid_calls := 7\<rparr>)"
    by simp_all
  from staging_deterministic_under_one_clock [OF ids clock table reads, of exampleVersions None]
    ids clock table reads
  show ?thesis by (simp add: list_all_iff example_run)
qed

subsection \<open>The read reconciler\<close>

text \<open>The five ways one iteration of the loop can go.\<close>

lemma populateLoop_cases:
  obtains (Done) "\<not> i < length arr"
      "populateLoop u c rr i index arr = (arr, None)"
    | (Skip) "i < length arr" "rsp_operation (arr ! i) \<noteq> Read"
      "populateLoop u c rr i index arr = populateLoop u c rr (i + 1) index arr"
    | (Throw) err where "i < length arr" "rsp_operation (arr ! i) = Read"
      "readItem rr index = Inl err"
      "populateLoop u c rr i index arr = (arr, Some err)"
    | (Missing) "i < length arr" "rsp_operation (arr ! i) = Read"
      "readItem rr index = Inr None"
      "populateLoop u c rr i index arr = (arr, Some (Error ''Failed to fulfill all READ requests''))"
    | (Fill) raw where "i < length arr" "rsp_operation (arr ! i) = Read"
      "readItem rr index = Inr (Some raw)"
      "populateLoop u c rr i index arr =
         populateLoop u c rr (i + 1) (index + 1) (arr[i := fillReadEntry (arr ! i) (c (u raw))])"
proof (cases "i < length arr")
  case False
  then show ?thesis by (intro Done) (simp_all add: populateLoop.simps)
next
  case inside: True
  show ?thesis
  proof (cases "rsp_operation (arr ! i) = Read")
    case False
    with inside show ?thesis by (intro Skip) (simp_all add: populateLoop.simps [of u c rr i])
  next
    case isRead: True
    show ?thesis
    proof (cases "readItem rr index")
      case (Inl err)
      with inside isRead show ?thesis
        by (intro Throw [of err]) (simp_all add: populateLoop.simps [of u c rr i])
    next
      case (Inr found)
      show ?thesis
      proof (cases found)
        case None
        with inside isRead Inr show ?thesis
          by (intro Missing) (simp_all add: populateLoop.simps [of u c rr i])
      next
        case (Some raw)
        with inside isRead Inr show ?thesis
          by (intro Fill [of raw]) (simp_all add: populateLoop.simps [of u c rr i])
      qed
    qed
  qed
qed

lemma populateLoop_length:
  "length (fst (populateLoop u c rr i index arr)) = length arr"
proof (induction u c rr i index arr rule: populateLoop.induct)
  case (1 u c rr i index arr)
  show ?case
  proof (cases rule: populateLoop_cases [of i arr u c rr index])
    case Skip
    with "1.IH"(2) show ?thesis by simp
  next
    case (Fill raw)
    with "1.IH"(1) [of "Some raw" raw] show ?thesis by simp
  qed simp_all
qed

lemma populateLoop_frame:
  "j < length arr \<Longrightarrow> rsp_operation (arr ! j) \<noteq> Read \<or> j < i \<Longrightarrow>
     fst (populateLoop u c rr i index arr) ! j = arr ! j"
proof (induction u c rr i index arr rule: populateLoop.induct)
  case (1 u c rr i index arr)
  show ?case
  proof (cases rule: populateLoop_cases [of i arr u c rr index])
    case Skip
    have "fst (populateLoop u c rr (i + 1) index arr) ! j = arr ! j"
      using Skip "1.prems" by (intro "1.IH"(2)) auto
    with Skip show ?thesis by simp
  next
    case (Fill raw)
    let ?arr' = "arr[i := fillReadEntry (arr ! i) (c (u raw))]"
    from "1.prems" Fill have ne: "j \<noteq> i" by auto
    have "fst (populateLoop u c rr (i + 1) (index + 1) ?arr') ! j = ?arr' ! j"
      using Fill "1.prems" ne by (intro "1.IH"(1)) auto
    with Fill ne show ?thesis by simp
  qed simp_all
qed

lemma take_drop_step:
  assumes "i < length xs" and "i < j"
  shows "take (j - i) (drop i xs) = xs ! i # take (j - Suc i) (drop (Suc i) xs)"
proof -
  from assms(2) have "j - i = Suc (j - Suc i)" by simp
  moreover from assms(1) have "drop i xs = xs ! i # drop (Suc i) xs"
    by (simp add: Cons_nth_drop_Suc)
  ultimately show ?thesis by simp
qed

text \<open>
  When the loop ends without exception, the read entry at position \<open>j\<close> has received the
  raw result whose number is \<open>index\<close> plus the number of read entries between \<open>i\<close> and \<open>j\<close>.
\<close>

lemma populateLoop_reads:
  "snd (populateLoop u c rr i index arr) = None \<Longrightarrow> i \<le> j \<Longrightarrow> j < length arr \<Longrightarrow>
   rsp_operation (arr ! j) = Read \<Longrightarrow>
     \<exists>raw. readItem rr (index + length (filter (\<lambda>x. rsp_operation x = Read)
                                     (take (j - i) (drop i arr)))) = Inr (Some raw)
         \<and> fst (populateLoop u c rr i index arr) ! j = fillReadEntry (arr ! j) (c (u raw))"
proof (induction u c rr i index arr rule: populateLoop.induct)
  case (1 u c rr i index arr)
  show ?case
  proof (cases rule: populateLoop_cases [of i arr u c rr index])
    case Done
    with "1.prems" show ?thesis by simp
  next
    case Skip
    from Skip "1.prems" have lt: "i < j" by (cases "i = j") auto
    have "\<exists>raw. readItem rr (index + length (filter (\<lambda>x. rsp_operation x = Read)
                                     (take (j - (i + 1)) (drop (i + 1) arr)))) = Inr (Some raw)
         \<and> fst (populateLoop u c rr (i + 1) index arr) ! j = fillReadEntry (arr ! j) (c (u raw))"
      using Skip "1.prems" lt by (intro "1.IH"(2)) auto
    with Skip lt show ?thesis by (simp add: take_drop_step)
  next
    case (Throw err)
    with "1.prems" show ?thesis by simp
  next
    case Missing
    with "1.prems" show ?thesis by simp
  next
    case (Fill raw)
    let ?arr' = "arr[i := fillReadEntry (arr ! i) (c (u raw))]"
    show ?thesis
    proof (cases "i = j")
      case True
      have "fst (populateLoop u c rr (i + 1) (index + 1) ?arr') ! j = ?arr' ! j"
        using Fill True by (intro populateLoop_frame) auto
      with Fill True show ?thesis by simp
    next
      case False
      with "1.prems" have lt: "i < j" by simp
      have "\<exists>raw'. readItem rr (index + 1 + length (filter (\<lambda>x. rsp_operation x = Read)
                                     (take (j - (i + 1)) (drop (i + 1) ?arr')))) = Inr (Some raw')
         \<and> fst (populateLoop u c rr (i + 1) (index + 1) ?arr') ! j
             = fillReadEntry (?arr' ! j) (c (u raw'))"
        using Fill "1.prems" lt by (intro "1.IH"(1)) auto
      with Fill lt show ?thesis by (simp add: take_drop_step)
    qed
  qed
qed

text \<open>A read entry without raw result ends the loop with an exception.\<close>

lemma populateLoop_throws:
  "k < length (filter (\<lambda>x. rsp_operation x = Read) (drop i arr)) \<Longrightarrow>
   (\<And>raw. readItem rr (index + k) \<noteq> Inr (Some raw)) \<Longrightarrow>
     snd (populateLoop u c rr i index arr) \<noteq> None"
proof (induction u c rr i index arr arbitrary: k rule: populateLoop.induct)
  case (1 u c rr i index arr)
  show ?case
  proof (cases rule: populateLoop_cases [of i arr u c rr index])
    case Done
    with "1.prems"(1) show ?thesis by simp
  next
    case Skip
    then have "drop i arr = arr ! i # drop (i + 1) arr" by (simp add: Cons_nth_drop_Suc)
    with Skip "1.prems"(1)
    have "k < length (filter (\<lambda>x. rsp_operation x = Read) (drop (i + 1) arr))" by simp
    then have "snd (populateLoop u c rr (i + 1) index arr) \<noteq> None"
      using Skip "1.prems"(2) by (intro "1.IH"(2)) auto
    with Skip show ?thesis by simp
  next
    case (Throw err)
    then show ?thesis by simp
  next
    case Missing
    then show ?thesis by simp
  next
    case (Fill raw)
    let ?arr' = "arr[i := fillReadEntry (arr ! i) (c (u raw))]"
    from Fill "1.prems"(2) [of raw] have "k \<noteq> 0" by (cases k) auto
    then obtain k' where k: "k = Suc k'" by (cases k) auto
    from Fill have "drop i arr = arr ! i # drop (i + 1) arr" by (simp add: Cons_nth_drop_Suc)
    with Fill "1.prems"(1) k
    have "k' < length (filter (\<lambda>x. rsp_operation x = Read) (drop (i + 1) ?arr'))" by simp
    moreover have "readItem rr (index + 1 + k') \<noteq> Inr (Some raw')" for raw'
      using "1.prems"(2) [of raw'] k by simp
    ultimately have "snd (populateLoop u c rr (i + 1) (index + 1) ?arr') \<noteq> None"
      using Fill by (intro "1.IH"(1)) auto
    with Fill show ?thesis by simp
  qed
qed

text \<open>When every read entry has a raw result, the loop ends without exception.\<close>

lemma populateLoop_returns:
  "(\<And>k. k < length (filter (\<lambda>x. rsp_operation x = Read) (drop i arr)) \<Longrightarrow>
         \<exists>raw. readItem rr (index + k) = Inr (Some raw)) \<Longrightarrow>
     snd (populateLoop u c rr i index arr) = None"
proof (induction u c rr i index arr rule: populateLoop.induct)
  case (1 u c rr i index arr)
  note found = "1.prems"
  show ?case
  proof (cases rule: populateLoop_cases [of i arr u c rr index])
    case Done
    then show ?thesis by simp
  next
    case Skip
    then have tail: "drop i arr = arr ! i # drop (i + 1) arr" by (simp add: Cons_nth_drop_Suc)
    have "snd (populateLoop u c rr (i + 1) index arr) = None"
    proof (rule "1.IH"(2))
      show "i < length arr" by (rule Skip(1))
      show "rsp_operation (arr ! i) \<noteq> Read" by (rule Skip(2))
    next
      fix k
      assume "k < length (filter (\<lambda>x. rsp_operation x = Read) (drop (i + 1) arr))"
      with tail Skip(2) have "k < length (filter (\<lambda>x. rsp_operation x = Read) (drop i arr))"
        by simp
      then show "\<exists>raw. readItem rr (index + k) = Inr (Some raw)" by (rule found)
    qed
    with Skip show ?thesis by simp
  next
    case (Throw err)
    then have tail: "drop i arr = arr ! i # drop (i + 1) arr" by (simp add: Cons_nth_drop_Suc)
    with Throw(2) have "0 < length (filter (\<lambda>x. rsp_operation x = Read) (drop i arr))" by simp
    then have "\<exists>raw. readItem rr (index + 0) = Inr (Some raw)" by (rule found)
    with Throw(3) show ?thesis by simp
  next
    case Missing
    then have tail: "drop i arr = arr ! i # drop (i + 1) arr" by (simp add: Cons_nth_drop_Suc)
    with Missing(2) have "0 < length (filter (\<lambda>x. rsp_operation x = Read) (drop i arr))" by simp
    then have "\<exists>raw. readItem rr (index + 0) = Inr (Some raw)" by (rule found)
    with Missing(3) show ?thesis by simp
  next
    case (Fill raw)
    let ?arr' = "arr[i := fillReadEntry (arr ! i) (c (u raw))]"
    from Fill have tail: "drop i arr = arr ! i # drop (i + 1) arr" by (simp add: Cons_nth_drop_Suc)
    have "snd (populateLoop u c rr (i + 1) (index + 1) ?arr') = None"
    proof (rule "1.IH"(1))
      show "i < length arr" by (rule Fill(1))
      show "rsp_operation (arr ! i) = Read" by (rule Fill(2))
      show "readItem rr index = Inr (Some raw)" by (rule Fill(3))
      show "Some raw = Some raw" by (rule refl)
    next
      fix k
      assume "k < length (filter (\<lambda>x. rsp_operation x = Read) (drop (i + 1) ?arr'))"
      with tail Fill(2)
      have "Suc k < length (filter (\<lambda>x. rsp_operation x = Read) (drop i arr))" by simp
      then have "\<exists>raw. readItem rr (index + Suc k) = Inr (Some raw)" by (rule found)
      then show "\<exists>raw. readItem rr (index + 1 + k) = Inr (Some raw)" by simp
    qed
    with Fill show ?thesis by simp
  qed
qed

lemma populateLoop_error:
  "snd (populateLoop u c rr i index arr) = Some err \<Longrightarrow>
     err = Error ''Failed to fulfill all READ requests'' \<or>
     (err = TypeError \<and> (\<exists>r. rr = Some r \<and> Responses r = None))"
proof (induction u c rr i index arr rule: populateLoop.induct)
  case (1 u c rr i index arr)
  show ?case
  proof (cases rule: populateLoop_cases [of i arr u c rr index])
    case Done
    with "1.prems" show ?thesis by simp
  next
    case Skip
    with "1.prems" "1.IH"(2) show ?thesis by simp
  next
    case (Throw e)
    with "1.prems" show ?thesis
      by (auto simp: readItem_def split: option.splits)
  next
    case Missing
    with "1.prems" show ?thesis by simp
  next
    case (Fill raw)
    with "1.prems" "1.IH"(1) [of "Some raw" raw] show ?thesis by simp
  qed
qed

lemma populate_returns_iff:
  "fst (populateBundleEntryResponseWithReadResult u c arr rr) = Inr out \<longleftrightarrow>
     snd (populateLoop u c rr 0 0 arr) = None \<and> out = fst (populateLoop u c rr 0 0 arr)"
  by (cases "populateLoop u c rr 0 0 arr")
     (auto simp: populateBundleEntryResponseWithReadResult_def split: option.splits)

lemma populate_throws_iff:
  "fst (populateBundleEntryResponseWithReadResult u c arr rr) = Inl err \<longleftrightarrow>
     snd (populateLoop u c rr 0 0 arr) = Some err"
  by (cases "populateLoop u c rr 0 0 arr")
     (auto simp: populateBundleEntryResponseWithReadResult_def split: option.splits)

lemma populate_array:
  "snd (populateBundleEntryResponseWithReadResult u c arr rr) = fst (populateLoop u c rr 0 0 arr)"
  by (cases "populateLoop u c rr 0 0 arr")
     (auto simp: populateBundleEntryResponseWithReadResult_def split: option.splits)

lemma example_reconciliation:
  "populateBundleEntryResponseWithReadResult (\<lambda>raw. raw) exampleCleanItem exampleResponses
     exampleReadResult = (Inr exampleReconciled, exampleReconciled)"
  by code_simp

text \<open>
  Claim C5. When \<^verbatim>\<open>populateBundleEntryResponseWithReadResult\<close> returns, the read entry at
  position \<open>j\<close> has received the raw result whose number is the number of read entries
  before \<open>j\<close>: the first read entry the first raw result, and so on. When a read entry has
  no raw result (no result object, an index past the end of \<^verbatim>\<open>Responses\<close>, or an entry
  without \<^verbatim>\<open>Item\<close>), the call throws; when \<^verbatim>\<open>Responses\<close> is shorter than the number of read
  entries, what it throws is the error \<^verbatim>\<open>Failed to fulfill all READ requests\<close>. And when
  every read entry has a raw result, the call returns, with an array of the same length
  in which each read entry has received its raw result in that order.
\<close>

theorem read_results_in_order:
  "(\<forall>out j. fst (populateBundleEntryResponseWithReadResult u c arr rr) = Inr out
       \<longrightarrow> j < length arr \<longrightarrow> rsp_operation (arr ! j) = Read
       \<longrightarrow> (\<exists>raw. readItem rr (length (filter (\<lambda>x. rsp_operation x = Read) (take j arr)))
                    = Inr (Some raw)
                \<and> out ! j = fillReadEntry (arr ! j) (c (u raw))))
   \<and> (\<forall>k. k < length (filter (\<lambda>x. rsp_operation x = Read) arr)
       \<longrightarrow> (\<forall>raw. readItem rr k \<noteq> Inr (Some raw))
       \<longrightarrow> (\<exists>err. fst (populateBundleEntryResponseWithReadResult u c arr rr) = Inl err))
   \<and> (\<forall>rs. rr = Some \<lparr>Responses = Some rs\<rparr>
       \<longrightarrow> length rs < length (filter (\<lambda>x. rsp_operation x = Read) arr)
       \<longrightarrow> fst (populateBundleEntryResponseWithReadResult u c arr rr)
             = Inl (Error ''Failed to fulfill all READ requests''))
   \<and> ((\<forall>k. k < length (filter (\<lambda>x. rsp_operation x = Read) arr)
          \<longrightarrow> (\<exists>raw. readItem rr k = Inr (Some raw)))
       \<longrightarrow> (\<exists>out. fst (populateBundleEntryResponseWithReadResult u c arr rr) = Inr out
              \<and> length out = length arr
              \<and> (\<forall>j. j < length arr \<longrightarrow> rsp_operation (arr ! j) = Read
                    \<longrightarrow> (\<exists>raw. readItem rr
                                 (length (filter (\<lambda>x. rsp_operation x = Read) (take j arr)))
                                 = Inr (Some raw)
                              \<and> out ! j = fillReadEntry (arr ! j) (c (u raw))))))"
proof (intro conjI allI impI)
  fix out j
  assume "fst (populateBundleEntryResponseWithReadResult u c arr rr) = Inr out"
    and j: "j < length arr" "rsp_operation (arr ! j) = Read"
  then have ok: "snd (populateLoop u c rr 0 0 arr) = None"
    and out: "out = fst (populateLoop u c rr 0 0 arr)"
    by (simp_all add: populate_returns_iff)
  from populateLoop_reads [OF ok _ j] out
  show "\<exists>raw. readItem rr (length (filter (\<lambda>x. rsp_operation x = Read) (take j arr)))
                 = Inr (Some raw)
             \<and> out ! j = fillReadEntry (arr ! j) (c (u raw))"
    by simp
next
  fix k
  assume "k < length (filter (\<lambda>x. rsp_operation x = Read) arr)"
    and "\<forall>raw. readItem rr k \<noteq> Inr (Some raw)"
  then have "snd (populateLoop u c rr 0 0 arr) \<noteq> None"
    by (intro populateLoop_throws [of k]) simp_all
  then show "\<exists>err. fst (populateBundleEntryResponseWithReadResult u c arr rr) = Inl err"
    by (auto simp: populate_throws_iff)
next
  fix rs
  assume rr: "rr = Some \<lparr>Responses = Some rs\<rparr>"
    and short: "length rs < length (filter (\<lambda>x. rsp_operation x = Read) arr)"
  from rr have "readItem rr (length rs) \<noteq> Inr (Some raw)" for raw
    by (simp add: readItem_def)
  with short have "snd (populateLoop u c rr 0 0 arr) \<noteq> None"
    by (intro populateLoop_throws [of "length rs"]) simp_all
  then obtain err where err: "snd (populateLoop u c rr 0 0 arr) = Some err" by blast
  from populateLoop_error [OF err] rr
  have "err = Error ''Failed to fulfill all READ requests''" by auto
  with err show "fst (populateBundleEntryResponseWithReadResult u c arr rr)
      = Inl (Error ''Failed to fulfill all READ requests'')"
    by (simp add: populate_throws_iff)
next
  assume all: "\<forall>k. k < length (filter (\<lambda>x. rsp_operation x = Read) arr)
          \<longrightarrow> (\<exists>raw. readItem rr k = Inr (Some raw))"
  have ok: "snd (populateLoop u c rr 0 0 arr) = None"
  proof (rule populateLoop_returns)
    fix k
    assume "k < length (filter (\<lambda>x. rsp_operation x = Read) (drop 0 arr))"
    with all show "\<exists>raw. readItem rr (0 + k) = Inr (Some raw)" by simp
  qed
  let ?out = "fst (populateLoop u c rr 0 0 arr)"
  have "fst (populateBundleEntryResponseWithReadResult u c arr rr) = Inr ?out"
    using ok by (simp add: populate_returns_iff)
  moreover have "length ?out = length arr" by (rule populateLoop_length)
  moreover have "\<exists>raw. readItem rr (length (filter (\<lambda>x. rsp_operation x = Read) (take j arr)))
                       = Inr (Some raw)
                   \<and> ?out ! j = fillReadEntry (arr ! j) (c (u raw))"
    if "j < length arr" "rsp_operation (arr ! j) = Read" for j
    using populateLoop_reads [OF ok _ that] by simp
  ultimately show "\<exists>out. fst (populateBundleEntryResponseWithReadResult u c arr rr) = Inr out
              \<and> length out = length arr
              \<and> (\<forall>j. j < length arr \<longrightarrow> rsp_operation (arr ! j) = Read
                    \<longrightarrow> (\<exists>raw. readItem rr
                                 (length (filter (\<lambda>x. rsp_operation x = Read) (take j arr)))
                                 = Inr (Some raw)
                              \<and> out ! j = fillReadEntry (arr ! j) (c (u raw))))"
    by blast
qed

text \<open>
  Claim C5 on three responses, of which the first and the third are reads: with two raw
  results the reconciler returns, the first read receives the first and the second read
  the second; with one raw result the reconciler throws.
\<close>

theorem read_results_in_order_witness:
  "map rsp_operation exampleResponses = [Read, Delete, Read] \<and>
   readItem exampleReadResult 0 = Inr (Some (stored ''p3'' ''Cy'' ''2021-02-02T02:02:02Z'')) \<and>
   readItem exampleReadResult 1 = Inr (Some (stored ''p4'' ''Di'' ''2021-01-01T01:01:01Z'')) \<and>
   fst (populateBundleEntryResponseWithReadResult (\<lambda>raw. raw) exampleCleanItem exampleResponses
     exampleReadResult) = Inr exampleReconciled \<and>
   length exampleReconciled = length exampleResponses \<and>
   exampleReconciled ! 0 = fillReadEntry (exampleResponses ! 0)
     (exampleCleanItem (stored ''p3'' ''Cy'' ''2021-02-02T02:02:02Z'')) \<and>
   exampleReconciled ! 2 = fillReadEntry (exampleResponses ! 2)
     (exampleCleanItem (stored ''p4'' ''Di'' ''2021-01-01T01:01:01Z'')) \<and>
   shortReadResult = Some \<lparr>Responses = Some [Some (stored ''p3'' ''Cy'' ''2021-02-02T02:02:02Z'')]\<rparr> \<and>
   fst (populateBundleEntryResponseWithReadResult (\<lambda>raw. raw) exampleCleanItem exampleResponses
     shortReadResult) = Inl (Error ''Failed to fulfill all READ requests'')"
proof -
  have run: "fst (populateBundleEntryResponseWithReadResult (\<lambda>raw. raw) exampleCleanItem
      exampleResponses exampleReadResult) = Inr exampleReconciled"
    by (simp add: example_reconciliation)
  have ops: "map rsp_operation exampleResponses = [Read, Delete, Read]"
    by (simp add: exampleResponses_def readPlaceholder_def deletedResponse_def)
  have reads: "length (filter (\<lambda>x. rsp_operation x = Read) exampleResponses) = 2"
    by (simp add: exampleResponses_def readPlaceholder_def deletedResponse_def)
  have raws:
    "readItem exampleReadResult 0 = Inr (Some (stored ''p3'' ''Cy'' ''2021-02-02T02:02:02Z''))"
    "readItem exampleReadResult 1 = Inr (Some (stored ''p4'' ''Di'' ''2021-01-01T01:01:01Z''))"
    by (simp_all add: readItem_def exampleReadResult_def)
  have "\<exists>raw. readItem exampleReadResult k = Inr (Some raw)"
    if "k < length (filter (\<lambda>x. rsp_operation x = Read) exampleResponses)" for k
  proof -
    from that reads have "k = 0 \<or> k = 1" by auto
    with raws show ?thesis by auto
  qed
  then have all: "\<forall>k. k < length (filter (\<lambda>x. rsp_operation x = Read) exampleResponses)
      \<longrightarrow> (\<exists>raw. readItem exampleReadResult k = Inr (Some raw))"
    by blast
  from read_results_in_order
    [of "\<lambda>raw. raw" exampleCleanItem exampleResponses exampleReadResult,
      THEN conjunct2, THEN conjunct2, THEN conjunct2, THEN mp, OF all]
  obtain out where "fst (populateBundleEntryResponseWithReadResult (\<lambda>raw. raw) exampleCleanItem
      exampleResponses exampleReadResult) = Inr out" "length out = length exampleResponses"
    by blast
  with run have len: "length exampleReconciled = length exampleResponses" by simp
  have short: "shortReadResult =
      Some \<lparr>Responses = Some [Some (stored ''p3'' ''Cy'' ''2021-02-02T02:02:02Z'')]\<rparr>"
    by (simp add: shortReadResult_def)
  have entries: "0 < length exampleResponses" "rsp_operation (exampleResponses ! 0) = Read"
    "2 < length exampleResponses" "rsp_operation (exampleResponses ! 2) = Read"
    by (simp_all add: exampleResponses_def readPlaceholder_def)
  have before: "length (filter (\<lambda>x. rsp_operation x = Read) (take 0 exampleResponses)) = 0"
    "length (filter (\<lambda>x. rsp_operation x = Read) (take 2 exampleResponses)) = 1"
    by (simp_all add: exampleResponses_def readPlaceholder_def deletedResponse_def)
  note ordered = read_results_in_order
    [of "\<lambda>raw. raw" exampleCleanItem exampleResponses exampleReadResult,
      THEN conjunct1, rule_format, OF run]
  from ordered [OF entries(1,2)]
  have first: "\<exists>raw. readItem exampleReadResult 0 = Inr (Some raw)
      \<and> exampleReconciled ! 0 = fillReadEntry (exampleResponses ! 0) (exampleCleanItem raw)"
    by (simp only: before)
  from ordered [OF entries(3,4)]
  have third: "\<exists>raw. readItem exampleReadResult 1 = Inr (Some raw)
      \<and> exampleReconciled ! 2 = fillReadEntry (exampleResponses ! 2) (exampleCleanItem raw)"
    by (simp only: before)
  have fewer: "length [Some (stored ''p3'' ''Cy'' ''2021-02-02T02:02:02Z'')]
      < length (filter (\<lambda>x. rsp_operation x = Read) exampleResponses)"
    by (simp add: reads)
  from read_results_in_order
    [of "\<lambda>raw. raw" exampleCleanItem exampleResponses shortReadResult,
      THEN conjunct2, THEN conjunct2, THEN conjunct1, rule_format, OF short fewer]
  have thrown: "fst (populateBundleEntryResponseWithReadResult (\<lambda>raw. raw) exampleCleanItem
      exampleResponses shortReadResult) = Inl (Error ''Failed to fulfill all READ requests'')" .
  from first have "exampleReconciled ! 0 = fillReadEntry (exampleResponses ! 0)
     (exampleCleanItem (stored ''p3'' ''Cy'' ''2021-02-02T02:02:02Z''))"
    by (auto simp: readItem_def exampleReadResult_def)
  moreover from third have "exampleReconciled ! 2 = fillReadEntry (exampleResponses ! 2)
     (exampleCleanItem (stored ''p4'' ''Di'' ''2021-01-01T01:01:01Z''))"
    by (auto simp: readItem_def exampleReadResult_def)
  ultimately show ?thesis using run ops raws len short thrown by simp
qed

text \<open>
  Claim C8. When \<^verbatim>\<open>populateBundleEntryResponseWithReadResult\<close> returns, what it returns is
  the caller's array as the call leaves it, of the length it had; every entry whose
  operation is not read is as it was, and every entry is as it was in all fields but
  \<^verbatim>\<open>resource\<close> and \<^verbatim>\<open>lastModified\<close>, so the order of the entries is the original one.
\<close>

theorem reconciler_frame:
  assumes "fst (populateBundleEntryResponseWithReadResult u c arr rr) = Inr out"
  shows "out = snd (populateBundleEntryResponseWithReadResult u c arr rr)
       \<and> length out = length arr
       \<and> (\<forall>j<length arr. rsp_operation (arr ! j) \<noteq> Read \<longrightarrow> out ! j = arr ! j)
       \<and> (\<forall>j<length arr. out ! j =
             (arr ! j)\<lparr>rsp_resource := rsp_resource (out ! j),
                       rsp_lastModified := rsp_lastModified (out ! j)\<rparr>)"
proof -
  from assms have ok: "snd (populateLoop u c rr 0 0 arr) = None"
    and out: "out = fst (populateLoop u c rr 0 0 arr)"
    by (simp_all add: populate_returns_iff)
  have same: "out = snd (populateBundleEntryResponseWithReadResult u c arr rr)"
    using out by (simp add: populate_array)
  have len: "length out = length arr" using out by (simp add: populateLoop_length)
  have others: "out ! j = arr ! j" if "j < length arr" "rsp_operation (arr ! j) \<noteq> Read" for j
    using that out by (simp add: populateLoop_frame)
  have fields: "out ! j = (arr ! j)\<lparr>rsp_resource := rsp_resource (out ! j),
                                    rsp_lastModified := rsp_lastModified (out ! j)\<rparr>"
    if j: "j < length arr" for j
  proof (cases "rsp_operation (arr ! j) = Read")
    case False
    with j others show ?thesis by simp
  next
    case True
    from populateLoop_reads [OF ok _ j True] out
    obtain raw where "out ! j = fillReadEntry (arr ! j) (c (u raw))" by auto
    then show ?thesis by (simp add: fillReadEntry_def)
  qed
  from same len others fields show ?thesis by blast
qed

text \<open>
  Claim C8 on the three example responses: the delete entry in the middle is returned as
  it was, and the array is returned with its three entries.
\<close>

theorem reconciler_frame_witness:
  "fst (populateBundleEntryResponseWithReadResult (\<lambda>raw. raw) exampleCleanItem exampleResponses
     exampleReadResult) = Inr exampleReconciled \<and>
   exampleReconciled = snd (populateBundleEntryResponseWithReadResult (\<lambda>raw. raw)
     exampleCleanItem exampleResponses exampleReadResult) \<and>
   length exampleReconciled = length exampleResponses \<and>
   rsp_operation (exampleResponses ! 1) = Delete \<and>
   exampleReconciled ! 1 = exampleResponses ! 1 \<and>
   map rsp_id exampleReconciled = map rsp_id exampleResponses"
proof -
  have run: "fst (populateBundleEntryResponseWithReadResult (\<lambda>raw. raw) exampleCleanItem
      exampleResponses exampleReadResult) = Inr exampleReconciled"
    by (simp add: example_reconciliation)
  have middle: "rsp_operation (exampleResponses ! 1) = Delete"
    by (simp add: exampleResponses_def deletedResponse_def)
  have ids: "map rsp_id exampleReconciled = map rsp_id exampleResponses"
    by (simp add: exampleReconciled_def exampleResponses_def readPlaceholder_def)
  from reconciler_frame [OF run] middle
  have "exampleReconciled = snd (populateBundleEntryResponseWithReadResult (\<lambda>raw. raw)
          exampleCleanItem exampleResponses exampleReadResult)"
    and "length exampleReconciled = length exampleResponses"
    and "exampleReconciled ! 1 = exampleResponses ! 1"
    by (simp_all add: exampleResponses_def)
  with run middle ids show ?thesis by simp
qed

end
